theory Spec2Isabelle
  imports Main
begin

section \<open>Archive tools: a shallow embedding of the TypeScript sources\<close>

text \<open>
  The development follows the four utility classes of the repository:
  \<^verbatim>\<open>DirectoryMaker\<close> (directory-maker.ts), \<^verbatim>\<open>S3Uploader\<close> (s3-uploader.ts),
  \<^verbatim>\<open>S3Downloader\<close> (s3-downloader.ts) and \<^verbatim>\<open>ImagePreviewMaker\<close>
  (image-preview-maker.ts).

  A JavaScript string is a sequence of UTF-16 code units. It is modelled as a \<open>string\<close>
  whose characters are the code units below 256 (ASCII and the Latin-1 supplement); on that
  range the character classes and the case mapping below are the ones of ECMAScript.
  Paths follow the POSIX flavour of the Node.js \<^verbatim>\<open>path\<close> module.
\<close>

subsection \<open>ECMAScript string operations used by the sources\<close>

text \<open>The class \<^verbatim>\<open>\s\<close> of a regular expression, which is also what \<^verbatim>\<open>trim\<close> removes:
  TAB, LF, VT, FF, CR, SPACE and NO-BREAK SPACE are its members below 256.\<close>

definition isWhiteSpace :: "char \<Rightarrow> bool" where
  "isWhiteSpace c \<longleftrightarrow>
     c \<in> {CHR 0x09, CHR 0x0A, CHR 0x0B, CHR 0x0C, CHR 0x0D, CHR 0x20, CHR 0xA0}"

text \<open>\<^verbatim>\<open>String.prototype.trim\<close>.\<close>

definition trim :: "string \<Rightarrow> string" where
  "trim s = rev (dropWhile isWhiteSpace (rev (dropWhile isWhiteSpace s)))"

text \<open>\<^verbatim>\<open>s.replace(/\s+/g, r)\<close>: scanning from the left, every maximal run of white space
  is replaced by one copy of \<open>r\<close>.\<close>

function replaceWhiteSpaceRuns :: "string \<Rightarrow> string \<Rightarrow> string" where
  "replaceWhiteSpaceRuns r [] = []"
| "replaceWhiteSpaceRuns r (c # cs) =
     (if isWhiteSpace c then r @ replaceWhiteSpaceRuns r (dropWhile isWhiteSpace cs)
      else c # replaceWhiteSpaceRuns r cs)"
  by pat_completeness auto
termination
  by (relation "measure (\<lambda>(r, s). length s)")
     (auto simp: less_Suc_eq_le length_dropWhile_le)

text \<open>The class \<^verbatim>\<open>[a-zA-Z0-9-]\<close>.\<close>

definition isSlugChar :: "char \<Rightarrow> bool" where
  "isSlugChar c \<longleftrightarrow>
     (let n = (of_char c :: nat) in
        (97 \<le> n \<and> n \<le> 122) \<or> (65 \<le> n \<and> n \<le> 90) \<or> (48 \<le> n \<and> n \<le> 57) \<or> c = CHR ''-'')"

text \<open>\<^verbatim>\<open>s.replace(/[^a-zA-Z0-9-]/g, '')\<close>.\<close>

definition removeNonSlugChars :: "string \<Rightarrow> string" where
  "removeNonSlugChars s = filter isSlugChar s"

text \<open>\<^verbatim>\<open>s.lastIndexOf(c)\<close> for a one-character search string: the index of the last
  occurrence, or -1.\<close>

definition lastIndexOf :: "string \<Rightarrow> char \<Rightarrow> int" where
  "lastIndexOf s c =
     (if c \<in> set s then int (length s) - 1 - int (length (takeWhile (\<lambda>x. x \<noteq> c) (rev s)))
      else - 1)"

text \<open>\<^verbatim>\<open>s.substring(a, b)\<close>: both indices are clamped to the string, and swapped when
  the first is the larger.\<close>

definition substring :: "string \<Rightarrow> int \<Rightarrow> int \<Rightarrow> string" where
  "substring s a b =
     (let n = int (length s);
          a' = min (max a 0) n;
          b' = min (max b 0) n;
          lo = min a' b';
          hi = max a' b'
      in take (nat (hi - lo)) (drop (nat lo) s))"

text \<open>\<^verbatim>\<open>String.prototype.toLowerCase\<close>: below 256 the letters with a lower-case form
  are A to Z and U+00C0 to U+00DE without the multiplication sign U+00D7, each 32 below
  its lower-case form.\<close>

definition lowerChar :: "char \<Rightarrow> char" where
  "lowerChar c =
     (let n = (of_char c :: nat) in
        if (65 \<le> n \<and> n \<le> 90) \<or> (192 \<le> n \<and> n \<le> 222 \<and> n \<noteq> 215)
        then char_of (n + 32) else c)"

definition toLowerCase :: "string \<Rightarrow> string" where
  "toLowerCase s = map lowerChar s"

text \<open>\<^verbatim>\<open>s.endsWith(t)\<close>.\<close>

definition endsWith :: "string \<Rightarrow> string \<Rightarrow> bool" where
  "endsWith s t \<longleftrightarrow> length t \<le> length s \<and> drop (length s - length t) s = t"

text \<open>A non-negative integer inside a template literal is printed in decimal.\<close>

fun decimal :: "nat \<Rightarrow> string" where
  "decimal n =
     (if n < 10 then [''0123456789'' ! n]
      else decimal (n div 10) @ [''0123456789'' ! (n mod 10)])"

declare decimal.simps [simp del]

subsection \<open>The Node.js path module (POSIX)\<close>

text \<open>Splitting at every slash, and the inverse.\<close>

fun splitSlash :: "string \<Rightarrow> string list" where
  "splitSlash [] = [[]]"
| "splitSlash (c # cs) =
     (if c = CHR ''/'' then [] # splitSlash cs
      else (case splitSlash cs of [] \<Rightarrow> [[c]] | p # ps \<Rightarrow> (c # p) # ps))"

fun joinSlash :: "string list \<Rightarrow> string" where
  "joinSlash [] = []"
| "joinSlash [p] = p"
| "joinSlash (p # q # ps) = p @ CHR ''/'' # joinSlash (q # ps)"

text \<open>The segment loop of \<^verbatim>\<open>normalizeString\<close>: empty segments and \<^verbatim>\<open>.\<close> are dropped,
  \<^verbatim>\<open>..\<close> removes the segment before it, or is kept when there is none to remove and the
  path is relative.\<close>

definition normalizeStep :: "bool \<Rightarrow> string list \<Rightarrow> string \<Rightarrow> string list" where
  "normalizeStep allowAboveRoot res seg =
     (if seg = [] \<or> seg = ''.'' then res
      else if seg = ''..'' then
        (if res \<noteq> [] \<and> last res \<noteq> ''..'' then butlast res
         else if allowAboveRoot then res @ [''..'']
         else res)
      else res @ [seg])"

definition normalizeString :: "string \<Rightarrow> bool \<Rightarrow> string" where
  "normalizeString p allowAboveRoot =
     joinSlash (foldl (normalizeStep allowAboveRoot) [] (splitSlash p))"

definition isAbsolute :: "string \<Rightarrow> bool" where
  "isAbsolute p \<longleftrightarrow> (case p of [] \<Rightarrow> False | c # _ \<Rightarrow> c = CHR ''/'')"

text \<open>\<^verbatim>\<open>path.normalize\<close>.\<close>

definition normalize :: "string \<Rightarrow> string" where
  "normalize p =
     (if p = [] then ''.''
      else
        (let trailingSeparator = (last p = CHR ''/'');
             q = normalizeString p (\<not> isAbsolute p)
         in if q = [] then
              (if isAbsolute p then ''/'' else if trailingSeparator then ''./'' else ''.'')
            else
              (if isAbsolute p then ''/'' else []) @ q @
              (if trailingSeparator then ''/'' else [])))"

text \<open>\<^verbatim>\<open>path.join\<close>: the non-empty arguments are joined with a slash and normalised.\<close>

definition path_join :: "string list \<Rightarrow> string" where
  "path_join args =
     (let parts = filter (\<lambda>a. a \<noteq> []) args
      in if parts = [] then ''.'' else normalize (joinSlash parts))"

text \<open>The last component of a path, trailing slashes ignored.\<close>

definition lastComponent :: "string \<Rightarrow> string" where
  "lastComponent p =
     rev (takeWhile (\<lambda>c. c \<noteq> CHR ''/'') (dropWhile (\<lambda>c. c = CHR ''/'') (rev p)))"

text \<open>\<^verbatim>\<open>path.basename(p)\<close> and \<^verbatim>\<open>path.basename(p, suffix)\<close>. The suffix is removed
  when the last component ends with it and is longer than it; a path that is the suffix
  itself gives the empty string.\<close>

definition basename :: "string \<Rightarrow> string" where
  "basename p = lastComponent p"

definition basename_suffix :: "string \<Rightarrow> string \<Rightarrow> string" where
  "basename_suffix p suffix =
     (if suffix \<noteq> [] \<and> length suffix \<le> length p then
        (if suffix = p then []
         else
           (let b = lastComponent p
            in if endsWith b suffix \<and> b \<noteq> suffix
               then take (length b - length suffix) b else b))
      else lastComponent p)"

text \<open>\<^verbatim>\<open>path.extname\<close>: from the last dot of the last component to its end; empty when
  there is no dot, when the only dot is the first character, and for the component
  \<^verbatim>\<open>..\<close>.\<close>

definition extname :: "string \<Rightarrow> string" where
  "extname p =
     (let b = lastComponent p;
          i = lastIndexOf b (CHR ''.'')
      in if i \<le> 0 \<or> b = ''..'' then [] else drop (nat i) b)"

text \<open>\<^verbatim>\<open>path.dirname\<close>: scanning from the end down to index 1, past trailing slashes and
  the last component, up to the slash before it.\<close>

definition dirname :: "string \<Rightarrow> string" where
  "dirname p =
     (case p of
        [] \<Rightarrow> ''.''
      | c # cs \<Rightarrow>
          (let hasRoot = (c = CHR ''/'');
               r = dropWhile (\<lambda>x. x \<noteq> CHR ''/'') (dropWhile (\<lambda>x. x = CHR ''/'') (rev cs))
           in if r = [] then (if hasRoot then ''/'' else ''.'')
              else if hasRoot \<and> length r = 1 then ''//''
              else take (length r) p))"

text \<open>\<^verbatim>\<open>path.resolve\<close> of one argument against the working directory, and
  \<^verbatim>\<open>path.relative\<close>: both paths are resolved, their common leading segments are dropped,
  and one \<^verbatim>\<open>..\<close> for each remaining segment of the first path is put before the remaining
  segments of the second.\<close>

definition resolve :: "string \<Rightarrow> string \<Rightarrow> string" where
  "resolve cwd p =
     (let s1 = (if p = [] then [] else p @ ''/'');
          s2 = (if isAbsolute p \<or> cwd = [] then s1 else cwd @ ''/'' @ s1);
          resolvedAbsolute = (isAbsolute p \<or> isAbsolute cwd);
          q = normalizeString s2 (\<not> resolvedAbsolute)
      in if resolvedAbsolute then CHR ''/'' # q else if q \<noteq> [] then q else ''.'')"

fun dropCommonPrefix :: "'a list \<Rightarrow> 'a list \<Rightarrow> 'a list \<times> 'a list" where
  "dropCommonPrefix (x # xs) (y # ys) =
     (if x = y then dropCommonPrefix xs ys else (x # xs, y # ys))"
| "dropCommonPrefix xs ys = (xs, ys)"

definition segments :: "string \<Rightarrow> string list" where
  "segments p = filter (\<lambda>s. s \<noteq> []) (splitSlash p)"

definition relative :: "string \<Rightarrow> string \<Rightarrow> string \<Rightarrow> string" where
  "relative cwd from to =
     (if from = to then []
      else
        (let f = resolve cwd from; t = resolve cwd to
         in if f = t then []
            else
              (case dropCommonPrefix (segments f) (segments t) of
                 (fr, tr) \<Rightarrow> joinSlash (replicate (length fr) ''..'' @ tr))))"

subsection \<open>Errors, effects and the outside world\<close>

text \<open>A thrown value, identified by its error code or message.\<close>

datatype error = Thrown string

datatype level = Debug | Info | Warn | Error

text \<open>Every call that leaves the program is recorded, in program order, as an event: a
  call of the logger (its level and message; the structured fields are left out) and every
  request to the file system, to pdf2pic and to S3. A request is recorded when it is
  issued, whether or not it succeeds.\<close>

datatype event =
    Log level string
  | Mkdir string
  | Exists string
  | Readdir string
  | Stat string
  | ReadFile string
  | WriteFile string string
  | Rename string string
  | StoreAsImage string string string
  | PutObject string string string string
  | GetObject string string
  | ListObjectsV2 string string "string option" nat

datatype file_kind = IsDirectory | IsFile | IsOther

datatype s3_object = S3Object (Key: "string option")

record ListObjectsV2Output =
  Contents :: "s3_object list option"
  NextContinuationToken :: "string option"

text \<open>The body of a GetObject response: a readable stream, which yields its chunks or
  fails while being read, or something else.\<close>

datatype body = Readable "error + string list" | NotReadable

text \<open>The world answers each request. The answer depends on the request only.\<close>

record world =
  os_cwd :: string
  os_mkdir :: "string \<Rightarrow> error option"
  os_exists :: "string \<Rightarrow> bool"
  os_readdir :: "string \<Rightarrow> error + string list"
  os_stat :: "string \<Rightarrow> error + file_kind"
  os_readFile :: "string \<Rightarrow> error + string"
  os_writeFile :: "string \<Rightarrow> string \<Rightarrow> error option"
  os_rename :: "string \<Rightarrow> string \<Rightarrow> error option"
  pdf_storeAsImage :: "string \<Rightarrow> string \<Rightarrow> string \<Rightarrow> error + string"
  s3_putObject :: "string \<Rightarrow> string \<Rightarrow> string \<Rightarrow> string \<Rightarrow> error option"
  s3_getObject :: "string \<Rightarrow> string \<Rightarrow> error + body"
  s3_listObjectsV2 ::
    "string \<Rightarrow> string \<Rightarrow> string option \<Rightarrow> nat \<Rightarrow> error + ListObjectsV2Output"

text \<open>An asynchronous function returns a value or throws, and leaves a trace of events.\<close>

type_synonym 'a outcome = "(error + 'a) \<times> event list"

definition andThen :: "'a outcome \<Rightarrow> ('a \<Rightarrow> 'b outcome) \<Rightarrow> 'b outcome" where
  "andThen m f =
     (case m of
        (Inl e, evs) \<Rightarrow> (Inl e, evs)
      | (Inr a, evs) \<Rightarrow> (case f a of (r, evs') \<Rightarrow> (r, evs @ evs')))"

definition logger :: "level \<Rightarrow> string \<Rightarrow> unit outcome" where
  "logger l msg = (Inr (), [Log l msg])"

text \<open>\<^verbatim>\<open>try { body } catch (error) { logger.error(msg); throw error; }\<close>\<close>

definition rethrowLogged :: "string \<Rightarrow> 'a outcome \<Rightarrow> 'a outcome" where
  "rethrowLogged msg m =
     (case m of
        (Inl e, evs) \<Rightarrow> (Inl e, evs @ [Log Error msg])
      | (Inr a, evs) \<Rightarrow> (Inr a, evs))"

definition request :: "event \<Rightarrow> error option \<Rightarrow> unit outcome" where
  "request ev answer = ((case answer of None \<Rightarrow> Inr () | Some e \<Rightarrow> Inl e), [ev])"

definition query :: "event \<Rightarrow> error + 'a \<Rightarrow> 'a outcome" where
  "query ev answer = (answer, [ev])"

text \<open>\<^verbatim>\<open>await Promise.all(items.map(f))\<close>: every task is started by \<^verbatim>\<open>map\<close> and none is
  cancelled when another one rejects, so the effects of all of them take place; the
  combined promise rejects with the rejection that comes first and is fulfilled when there
  is none. The tasks are taken to settle in list order.\<close>

fun promiseAll :: "('a \<Rightarrow> unit outcome) \<Rightarrow> 'a list \<Rightarrow> unit outcome" where
  "promiseAll f [] = (Inr (), [])"
| "promiseAll f (x # xs) =
     (case f x of
        (r, evs) \<Rightarrow>
          (case promiseAll f xs of
             (rs, evs') \<Rightarrow> ((case r of Inl e \<Rightarrow> Inl e | Inr _ \<Rightarrow> rs), evs @ evs')))"

text \<open>\<^verbatim>\<open>for (const x of items) { await f(x); }\<close>: the first rejection leaves the loop.\<close>

fun forEachAwait :: "('a \<Rightarrow> unit outcome) \<Rightarrow> 'a list \<Rightarrow> unit outcome" where
  "forEachAwait f [] = (Inr (), [])"
| "forEachAwait f (x # xs) = andThen (f x) (\<lambda>_. forEachAwait f xs)"

subsection \<open>DirectoryMaker (directory-maker.ts)\<close>

record FileMetadata =
  sanitizedFileName :: string
  sanitizedTitle :: string
  awsImage :: string
  download :: string

record DirectoryMaker =
  prefix :: string
  awsLocation :: string
  outputBasePath :: string

definition extractMetadata :: "DirectoryMaker \<Rightarrow> string \<Rightarrow> FileMetadata" where
  "extractMetadata this filename =
     (let fileNameWithoutExt = trim (substring filename 0 (lastIndexOf filename (CHR ''.'')));
          sanitizedFileName =
            removeNonSlugChars (replaceWhiteSpaceRuns ''-'' fileNameWithoutExt);
          sanitizedTitle = fileNameWithoutExt;
          awsImage = awsLocation this @ ''/'' @ prefix this @ ''/images/'' @
                     replaceWhiteSpaceRuns ''+'' sanitizedTitle @ ''.jpeg'';
          download = awsLocation this @ ''/'' @ prefix this @ ''/documents/'' @
                     replaceWhiteSpaceRuns ''+'' filename
      in \<lparr> sanitizedFileName = sanitizedFileName,
           sanitizedTitle = sanitizedTitle,
           awsImage = awsImage,
           download = download \<rparr>)"

text \<open>The template of \<^verbatim>\<open>generateMarkdownContent\<close> goes through \<^verbatim>\<open>outdent\<close>, which removes
  from the literal parts of the template the first line break, the indentation of the
  first line (four blanks) after every line break, and the last line break with the blanks
  after it. The keys, written eight blanks deep, keep four; the interpolated values are
  inserted unchanged.\<close>

definition LF :: string where
  "LF = [CHR 0x0A]"

definition generateMarkdownContent :: "FileMetadata \<Rightarrow> string" where
  "generateMarkdownContent metadata =
     ''---'' @ LF @
     ''    title: '' @ sanitizedTitle metadata @ LF @
     ''    slug: '' @ sanitizedFileName metadata @ LF @
     ''    description:'' @ LF @
     ''    code: '' @ sanitizedFileName metadata @ LF @
     ''    image: '' @ awsImage metadata @ LF @
     ''    download: '' @ download metadata @ LF @
     ''---''"

definition ensureDirectoryExists :: "world \<Rightarrow> string \<Rightarrow> unit outcome" where
  "ensureDirectoryExists w dirPath =
     rethrowLogged ''Failed to create directory''
       (andThen (request (Mkdir dirPath) (os_mkdir w dirPath))
          (\<lambda>_. logger Debug (''Ensured directory exists: '' @ dirPath)))"

definition processFile :: "DirectoryMaker \<Rightarrow> world \<Rightarrow> string \<Rightarrow> string \<Rightarrow> unit outcome" where
  "processFile this w filename outputDir =
     rethrowLogged (''Failed to process file: '' @ filename)
       (if \<not> endsWith (toLowerCase filename) ''.pdf'' then
          logger Debug (''Skipping non-PDF file: '' @ filename)
        else
          (let metadata = extractMetadata this filename;
               contents = generateMarkdownContent metadata;
               outputPath = path_join [outputDir, sanitizedFileName metadata @ ''.md'']
           in andThen (request (WriteFile outputPath contents)
                         (os_writeFile w outputPath contents))
                (\<lambda>_. logger Info (''Created file: '' @ outputPath))))"

definition createFilesFromDirectory :: "DirectoryMaker \<Rightarrow> world \<Rightarrow> string \<Rightarrow> unit outcome" where
  "createFilesFromDirectory this w stagingFolder =
     rethrowLogged (''Failed to process directory: '' @ stagingFolder)
       (let outputDir = path_join [os_cwd w, outputBasePath this, prefix this]
        in andThen (ensureDirectoryExists w outputDir)
             (\<lambda>_. andThen (query (Readdir stagingFolder) (os_readdir w stagingFolder))
                (\<lambda>files. andThen (promiseAll (\<lambda>filename. processFile this w filename outputDir) files)
                   (\<lambda>_. logger Info (''Successfully processed '' @ decimal (length files) @
                                      '' files from '' @ stagingFolder)))))"

subsection \<open>S3Uploader (s3-uploader.ts)\<close>

record UploadOptions =
  bucket :: string
  region :: string
  localPath :: string
  defaultCategory :: "string option"
  dryRun :: "bool option"

text \<open>Truthiness of an optional boolean, and \<^verbatim>\<open>value || fallback\<close> for an optional
  string: a missing and an empty string both give the fallback.\<close>

definition truthy :: "bool option \<Rightarrow> bool" where
  "truthy b \<longleftrightarrow> b = Some True"

definition orElse :: "string option \<Rightarrow> string \<Rightarrow> string" where
  "orElse v fallback = (case v of None \<Rightarrow> fallback | Some s \<Rightarrow> if s = [] then fallback else s)"

definition mimeTypes :: "(string \<times> string) list" where
  "mimeTypes =
     [(''.pdf'', ''application/pdf''),
      (''.jpg'', ''image/jpeg''),
      (''.jpeg'', ''image/jpeg''),
      (''.png'', ''image/png''),
      (''.gif'', ''image/gif''),
      (''.webp'', ''image/webp'')]"

definition getMimeType :: "string \<Rightarrow> string" where
  "getMimeType filePath =
     (let ext = toLowerCase (extname filePath)
      in orElse (map_of mimeTypes ext) ''application/octet-stream'')"

definition getS3Key :: "string \<Rightarrow> string \<Rightarrow> string" where
  "getS3Key fileName category =
     (let ext = toLowerCase (extname fileName);
          isPdf = (ext = ''.pdf'');
          subfolder = (if isPdf then ''documents'' else ''images'')
      in category @ ''/'' @ subfolder @ ''/'' @ fileName)"

definition uploadFile :: "UploadOptions \<Rightarrow> world \<Rightarrow> string \<Rightarrow> string \<Rightarrow> unit outcome" where
  "uploadFile options w localFilePath relativeFilePath =
     rethrowLogged (''Failed to upload '' @ localFilePath)
       (let fileName = basename localFilePath;
            category = orElse (defaultCategory options) ''misc'';
            s3Key = getS3Key fileName category
        in if truthy (dryRun options) then
             logger Info (''[DRY RUN] Would upload: '' @ localFilePath @ '' -> s3://'' @
                          bucket options @ ''/'' @ s3Key)
           else
             andThen (query (ReadFile localFilePath) (os_readFile w localFilePath))
               (\<lambda>fileContent.
                  (let contentType = getMimeType localFilePath
                   in andThen (request (PutObject (bucket options) s3Key fileContent contentType)
                                 (s3_putObject w (bucket options) s3Key fileContent contentType))
                        (\<lambda>_. logger Info (''Uploaded: '' @ localFilePath @ '' -> s3://'' @
                                           bucket options @ ''/'' @ s3Key)))))"

record walked =
  fullPath :: string
  relativePath :: string

text \<open>The recursive walk. Nothing in the source bounds the descent (a cycle of symbolic
  links is followed for ever), so the model carries the depth still allowed and answers
  \<open>None\<close> when it is used up.\<close>

fun walkDirectory ::
  "nat \<Rightarrow> world \<Rightarrow> string \<Rightarrow> string \<Rightarrow> string set \<Rightarrow> (walked list outcome) option"
and walkEntries ::
  "nat \<Rightarrow> world \<Rightarrow> string \<Rightarrow> string \<Rightarrow> string set \<Rightarrow> string list \<Rightarrow> (walked list outcome) option"
where
  "walkDirectory 0 w dirPath basePath validExtensions = None"
| "walkDirectory (Suc n) w dirPath basePath validExtensions =
     (case os_readdir w dirPath of
        Inl e \<Rightarrow>
          Some (Inl e, [Readdir dirPath, Log Error (''Error walking directory '' @ dirPath)])
      | Inr entries \<Rightarrow>
          (case walkEntries n w dirPath basePath validExtensions entries of
             None \<Rightarrow> None
           | Some m \<Rightarrow>
               Some (rethrowLogged (''Error walking directory '' @ dirPath)
                       (fst m, Readdir dirPath # snd m))))"
| "walkEntries n w dirPath basePath validExtensions [] = Some (Inr [], [])"
| "walkEntries n w dirPath basePath validExtensions (entry # rest) =
     (let fullPath = path_join [dirPath, entry]
      in case os_stat w fullPath of
           Inl e \<Rightarrow> Some (Inl e, [Stat fullPath])
         | Inr stats \<Rightarrow>
             (if stats = IsDirectory then
                (case walkDirectory n w fullPath basePath validExtensions of
                   None \<Rightarrow> None
                 | Some (Inl e, evs) \<Rightarrow> Some (Inl e, Stat fullPath # evs)
                 | Some (Inr subFiles, evs) \<Rightarrow>
                     (case walkEntries n w dirPath basePath validExtensions rest of
                        None \<Rightarrow> None
                      | Some (r, evs') \<Rightarrow>
                          Some (map_sum id (\<lambda>files. subFiles @ files) r,
                                Stat fullPath # evs @ evs')))
              else
                (let found =
                       (if stats = IsFile \<and> toLowerCase (extname entry) \<in> validExtensions
                        then [\<lparr> fullPath = fullPath,
                                relativePath =
                                  path_join [relative (os_cwd w) basePath dirPath, entry] \<rparr>]
                        else [])
                 in case walkEntries n w dirPath basePath validExtensions rest of
                      None \<Rightarrow> None
                    | Some (r, evs') \<Rightarrow>
                        Some (map_sum id (\<lambda>files. found @ files) r, Stat fullPath # evs'))))"

definition validExtensions :: "string set" where
  "validExtensions = {''.pdf'', ''.jpg'', ''.jpeg'', ''.png'', ''.gif'', ''.webp''}"

definition uploadAll :: "nat \<Rightarrow> UploadOptions \<Rightarrow> world \<Rightarrow> (unit outcome) option" where
  "uploadAll depth options w =
     (case walkDirectory depth w (localPath options) (localPath options) validExtensions of
        None \<Rightarrow> None
      | Some walk \<Rightarrow>
          Some (rethrowLogged ''Error during upload process''
            (andThen (logger Info (''Starting upload from '' @ localPath options @
                                   '' to s3://'' @ bucket options))
               (\<lambda>_. andThen (if truthy (dryRun options)
                              then logger Info ''DRY RUN MODE - No files will actually be uploaded''
                              else (Inr (), []))
                  (\<lambda>_. andThen walk
                     (\<lambda>files.
                        if length files = 0 then logger Info ''No valid files found to upload''
                        else
                          andThen (logger Info (''Found '' @ decimal (length files) @
                                                '' files to upload''))
                            (\<lambda>_. andThen (forEachAwait
                                            (\<lambda>file. uploadFile options w (fullPath file)
                                                      (relativePath file)) files)
                               (\<lambda>_. logger Info
                                      (''Upload completed successfully. Processed '' @
                                       decimal (length files) @ '' files.'')))))))))"

subsection \<open>S3Downloader (s3-downloader.ts)\<close>

text \<open>The fields of \<^verbatim>\<open>this.config\<close>.\<close>

record S3DownloaderConfig =
  config_region :: string
  config_bucket :: string
  config_prefix :: string
  config_localPath :: string
  config_maxKeys :: nat

text \<open>\<^verbatim>\<open>response.Contents.forEach(({ Key }) => { if (Key) objects.push(Key); })\<close>: a missing
  and an empty key are passed over.\<close>

definition pushKeys :: "s3_object list option \<Rightarrow> string list" where
  "pushKeys contents =
     (case contents of
        None \<Rightarrow> []
      | Some cs \<Rightarrow> concat (map (\<lambda>obj. case Key obj of None \<Rightarrow> [] | Some k \<Rightarrow> if k = [] then [] else [k]) cs))"

text \<open>The condition of \<^verbatim>\<open>while (continuationToken)\<close>: a missing and an empty token end
  the loop.\<close>

definition tokenTruthy :: "string option \<Rightarrow> bool" where
  "tokenTruthy t \<longleftrightarrow> (case t of None \<Rightarrow> False | Some s \<Rightarrow> s \<noteq> [])"

text \<open>The do-while loop of \<^verbatim>\<open>listObjects\<close>. Nothing bounds the number of rounds: the loop
  runs as long as the service hands out tokens, and has no value when that never ends.\<close>

partial_function (option) listObjectsLoop ::
  "S3DownloaderConfig \<Rightarrow> world \<Rightarrow> string option \<Rightarrow> string list \<Rightarrow> event list \<Rightarrow>
   (string list outcome) option"
where
  "listObjectsLoop config w continuationToken objects evs =
     (case s3_listObjectsV2 w (config_bucket config) (config_prefix config)
             continuationToken (config_maxKeys config) of
        Inl e \<Rightarrow>
          Some (Inl e,
                evs @ [ListObjectsV2 (config_bucket config) (config_prefix config)
                         continuationToken (config_maxKeys config)])
      | Inr response \<Rightarrow>
          (if tokenTruthy (NextContinuationToken response) then
             listObjectsLoop config w (NextContinuationToken response)
               (objects @ pushKeys (Contents response))
               (evs @ [ListObjectsV2 (config_bucket config) (config_prefix config)
                         continuationToken (config_maxKeys config)])
           else
             Some (Inr (objects @ pushKeys (Contents response)),
                   evs @ [ListObjectsV2 (config_bucket config) (config_prefix config)
                            continuationToken (config_maxKeys config)])))"

declare listObjectsLoop.simps [code]

definition listObjects :: "S3DownloaderConfig \<Rightarrow> world \<Rightarrow> (string list outcome) option" where
  "listObjects config w =
     (case listObjectsLoop config w None [] [] of
        None \<Rightarrow> None
      | Some m \<Rightarrow>
          Some (rethrowLogged ''Error listing S3 objects''
                  (andThen m
                     (\<lambda>objects.
                        andThen (logger Info (''Found '' @ decimal (length objects) @
                                              '' objects in s3://'' @ config_bucket config @
                                              ''/'' @ config_prefix config))
                          (\<lambda>_. (Inr objects, []))))))"

definition isDirectory :: "string \<Rightarrow> bool" where
  "isDirectory key \<longleftrightarrow> endsWith key ''/''"

text \<open>The downloader's \<^verbatim>\<open>ensureDirectoryExists\<close> swallows the error whose code is EEXIST.\<close>

definition S3Downloader_ensureDirectoryExists :: "world \<Rightarrow> string \<Rightarrow> unit outcome" where
  "S3Downloader_ensureDirectoryExists w directoryPath =
     (case os_mkdir w directoryPath of
        None \<Rightarrow> (Inr (), [Mkdir directoryPath])
      | Some e \<Rightarrow>
          (if e \<noteq> Thrown ''EEXIST'' then (Inl e, [Mkdir directoryPath])
           else (Inr (), [Mkdir directoryPath])))"

definition downloadFile :: "S3DownloaderConfig \<Rightarrow> world \<Rightarrow> string \<Rightarrow> unit outcome" where
  "downloadFile config w key =
     rethrowLogged ''Error downloading file''
       (if isDirectory key then logger Debug (''Skipping directory: '' @ key)
        else
          (let filePath = path_join [config_localPath config, key]
           in andThen (S3Downloader_ensureDirectoryExists w (dirname filePath))
                (\<lambda>_. andThen (logger Info (''Downloading '' @ key @ '' to '' @ filePath))
                   (\<lambda>_. andThen (query (GetObject (config_bucket config) key)
                                   (s3_getObject w (config_bucket config) key))
                      (\<lambda>responseBody.
                         case responseBody of
                           Readable fileStream \<Rightarrow>
                             andThen (fileStream, [])
                               (\<lambda>chunks.
                                  andThen (request (WriteFile filePath (concat chunks))
                                             (os_writeFile w filePath (concat chunks)))
                                    (\<lambda>_. logger Info (''Successfully downloaded '' @ key)))
                         | NotReadable \<Rightarrow>
                             (Inl (Thrown ''Unexpected response body type''), []))))))"

definition batchSize :: nat where
  "batchSize = 5"

function downloadBatches :: "S3DownloaderConfig \<Rightarrow> world \<Rightarrow> string list \<Rightarrow> unit outcome" where
  "downloadBatches config w objects =
     (if objects = [] then (Inr (), [])
      else andThen (promiseAll (downloadFile config w) (take batchSize objects))
             (\<lambda>_. downloadBatches config w (drop batchSize objects)))"
  by pat_completeness auto
termination
  by (relation "measure (\<lambda>(config, w, objects). length objects)")
     (auto simp: batchSize_def)

declare downloadBatches.simps [simp del]


subsection \<open>ImagePreviewMaker (image-preview-maker.ts)\<close>

record ConversionOptions =
  density :: nat
  format :: string
  width :: nat
  height :: "nat option"
  preserveAspectRatio :: bool
  page :: "nat option"

record ImagePreviewMaker =
  source :: string
  output_dir :: string
  defaultOptions :: ConversionOptions


text \<open>The first page is rendered by pdf2pic with the options of the instance, the save
  path and the save file name; the file it leaves is then renamed.\<close>

definition convertPdfToImage ::
  "ImagePreviewMaker \<Rightarrow> world \<Rightarrow> string \<Rightarrow> string \<Rightarrow> string \<Rightarrow> unit outcome" where
  "convertPdfToImage this w filePath outputFilePath baseName =
     andThen (query (StoreAsImage filePath (output_dir this) baseName)
                (pdf_storeAsImage w filePath (output_dir this) baseName))
       (\<lambda>resultPath.
          andThen (logger Info (''Converted '' @ basename filePath @ '' to '' @
                                format (defaultOptions this) @ '' successfully''))
            (\<lambda>_. andThen (logger Debug (''Image saved at: '' @ resultPath))
               (\<lambda>_. (let tempFilePath =
                            path_join [output_dir this,
                                       baseName @ ''.1.'' @ format (defaultOptions this)]
                      in request (Rename tempFilePath outputFilePath)
                           (os_rename w tempFilePath outputFilePath)))))"

text \<open>\<^verbatim>\<open>try { body } catch (error) { logger.error(msg); }\<close>: the error is not thrown again.\<close>

definition caughtLogged :: "string \<Rightarrow> unit outcome \<Rightarrow> unit outcome" where
  "caughtLogged msg m =
     (case m of
        (Inl e, evs) \<Rightarrow> (Inr (), evs @ [Log Error msg])
      | (Inr a, evs) \<Rightarrow> (Inr a, evs))"

definition convertOne :: "ImagePreviewMaker \<Rightarrow> world \<Rightarrow> string \<Rightarrow> unit outcome" where
  "convertOne this w file =
     caughtLogged (''Error converting '' @ file)
       (let filePath = path_join [source this, file];
            baseName = basename_suffix file ''.pdf'';
            outputFilePath =
              path_join [output_dir this, baseName @ ''.'' @ format (defaultOptions this)]
        in andThen (logger Info (''Converting '' @ file @ '' to '' @
                                 format (defaultOptions this)))
             (\<lambda>_. convertPdfToImage this w filePath outputFilePath baseName))"


subsection \<open>A bucket that answers ListObjectsV2\<close>

text \<open>The listing service that \<^verbatim>\<open>listObjects\<close> talks to is not part of the repository. For
  the statements about pagination it is a bucket holding the keys \<open>keys\<close>: a request is
  answered with the next keys under the prefix, at most \<open>MaxKeys\<close> and at most 1000 of them,
  and with a continuation token when keys remain. The token is opaque to the client; here
  its length is the number of keys already handed out.\<close>

definition startsWith :: "string \<Rightarrow> string \<Rightarrow> bool" where
  "startsWith s t \<longleftrightarrow> take (length t) s = t"

definition bucketListing ::
  "string list \<Rightarrow> string \<Rightarrow> string \<Rightarrow> string option \<Rightarrow> nat \<Rightarrow> error + ListObjectsV2Output" where
  "bucketListing keys bucketName keyPrefix token maxKeys =
     (let matching = filter (\<lambda>k. startsWith k keyPrefix) keys;
          offset = (case token of None \<Rightarrow> 0 | Some t \<Rightarrow> length t);
          pageSize = min maxKeys 1000;
          pageKeys = take pageSize (drop offset matching)
      in Inr \<lparr> Contents = (if pageKeys = [] then None
                           else Some (map (\<lambda>k. S3Object (Some k)) pageKeys)),
               NextContinuationToken =
                 (if offset + pageSize < length matching
                  then Some (replicate (offset + pageSize) (CHR ''t''))
                  else None) \<rparr>)"

text \<open>The requests that a client following the tokens of such a bucket sends when \<open>n\<close> keys
  lie under the prefix: one for each page, the first without a token.\<close>

definition pageToken :: "nat \<Rightarrow> string option" where
  "pageToken offset = (if offset = 0 then None else Some (replicate offset (CHR ''t'')))"

definition pageCount :: "nat \<Rightarrow> nat \<Rightarrow> nat" where
  "pageCount n pageSize = max 1 ((n + pageSize - 1) div pageSize)"

definition pageRequests :: "S3DownloaderConfig \<Rightarrow> nat \<Rightarrow> event list" where
  "pageRequests config n =
     (let pageSize = min (config_maxKeys config) 1000
      in map (\<lambda>i. ListObjectsV2 (config_bucket config) (config_prefix config)
                     (pageToken (i * pageSize)) (config_maxKeys config))
           [0..<pageCount n pageSize])"

subsection \<open>Notions used in the statements\<close>

text \<open>The key that \<^verbatim>\<open>uploadFile\<close> computes for a local file.\<close>

definition uploadKey :: "UploadOptions \<Rightarrow> string \<Rightarrow> string" where
  "uploadKey options localFilePath =
     getS3Key (basename localFilePath) (orElse (defaultCategory options) ''misc'')"

text \<open>The objects a bucket holds after a run: every PutObject request that the world
  accepted stores its body and content type under its bucket and key, a later one
  replacing an earlier one.\<close>

definition applyPut ::
  "world \<Rightarrow> (string \<times> string \<rightharpoonup> string \<times> string) \<Rightarrow> event \<Rightarrow> (string \<times> string \<rightharpoonup> string \<times> string)" where
  "applyPut w store ev =
     (case ev of
        PutObject b k content ct \<Rightarrow>
          (if s3_putObject w b k content ct = None then store((b, k) \<mapsto> (content, ct))
           else store)
      | _ \<Rightarrow> store)"

definition storedObjects :: "world \<Rightarrow> event list \<Rightarrow> (string \<times> string \<rightharpoonup> string \<times> string)" where
  "storedObjects w evs = foldl (applyPut w) Map.empty evs"

text \<open>The keys of the PutObject requests of a trace, and the keys of its GetObject
  requests.\<close>

fun putKeys :: "event list \<Rightarrow> string list" where
  "putKeys [] = []"
| "putKeys (PutObject b k c t # evs) = k # putKeys evs"
| "putKeys (ev # evs) = putKeys evs"


text \<open>Replacing every space character by a plus sign, one for one, as the description of
  the remote URLs words it.\<close>

definition spacesAsPlus :: "string \<Rightarrow> string" where
  "spacesAsPlus s = map (\<lambda>c. if c = CHR '' '' then CHR ''+'' else c) s"

text \<open>A string whose only white space is single space characters, no two of them
  adjacent.\<close>

fun singleSpaced :: "string \<Rightarrow> bool" where
  "singleSpaced [] = True"
| "singleSpaced (c # cs) =
     (if isWhiteSpace c
      then c = CHR '' '' \<and> (case cs of [] \<Rightarrow> True | d # _ \<Rightarrow> \<not> isWhiteSpace d) \<and> singleSpaced cs
      else singleSpaced cs)"

text \<open>\<^verbatim>\<open>s.includes(t)\<close>: \<open>t\<close> occurs in \<open>s\<close> as a contiguous piece.\<close>

fun contains :: "string \<Rightarrow> string \<Rightarrow> bool" where
  "contains [] t \<longleftrightarrow> t = []"
| "contains (c # cs) t \<longleftrightarrow> startsWith (c # cs) t \<or> contains cs t"

text \<open>A path segment that \<^verbatim>\<open>path.join\<close> leaves as it is: not empty, without a slash,
  and neither \<^verbatim>\<open>.\<close> nor \<^verbatim>\<open>..\<close>. The entries that \<^verbatim>\<open>readdir\<close> returns are of this kind.\<close>

definition plainSegment :: "string \<Rightarrow> bool" where
  "plainSegment s \<longleftrightarrow> s \<noteq> [] \<and> CHR ''/'' \<notin> set s \<and> s \<noteq> ''.'' \<and> s \<noteq> ''..''"

subsection \<open>Worlds for the examples\<close>

definition exampleMaker :: DirectoryMaker where
  "exampleMaker =
     \<lparr> prefix = ''mini'',
       awsLocation = ''https://bucket.s3.amazonaws.com'',
       outputBasePath = ''content/archive'' \<rparr>"


definition exampleOptions :: "bool \<Rightarrow> UploadOptions" where
  "exampleOptions dry =
     \<lparr> bucket = ''cmdiy-archive'', region = ''us-east-1'', localPath = ''/pdfs/in'',
       defaultCategory = Some ''misc'', dryRun = Some dry \<rparr>"

definition exampleConfig :: S3DownloaderConfig where
  "exampleConfig =
     \<lparr> config_region = ''us-east-1'', config_bucket = ''cmdiy-archive'',
       config_prefix = ''mini/'', config_localPath = ''/downloads'',
       config_maxKeys = 1000 \<rparr>"

text \<open>A world in which every request succeeds and every directory is empty.\<close>

definition quietWorld :: world where
  "quietWorld =
     \<lparr> os_cwd = ''/work'',
       os_mkdir = (\<lambda>p. None),
       os_exists = (\<lambda>p. True),
       os_readdir = (\<lambda>p. Inr []),
       os_stat = (\<lambda>p. Inr IsFile),
       os_readFile = (\<lambda>p. Inr ''%PDF''),
       os_writeFile = (\<lambda>p c. None),
       os_rename = (\<lambda>p q. None),
       pdf_storeAsImage = (\<lambda>p d n. Inr (d @ ''/'' @ n @ ''.1.jpeg'')),
       s3_putObject = (\<lambda>b k c t. None),
       s3_getObject = (\<lambda>b k. Inr (Readable (Inr [''%PDF'']))),
       s3_listObjectsV2 = (\<lambda>b p t m. Inr \<lparr> Contents = None, NextContinuationToken = None \<rparr>) \<rparr>"

text \<open>A world with three documents a.pdf, b.pdf and c.pdf, locally in /pdfs/in and remotely
  under mini/documents/, in which everything that touches b.pdf fails: rendering it,
  reading it, writing its markdown file and fetching its object.\<close>

definition faultyWorld :: world where
  "faultyWorld =
     quietWorld
       \<lparr> os_readdir :=
           (\<lambda>p. if p = ''/pdfs/in'' then Inr [''a.pdf'', ''b.pdf'', ''c.pdf'']
                else Inl (Thrown ''ENOENT'')),
         os_readFile :=
           (\<lambda>p. if p = ''/pdfs/in/b.pdf'' then Inl (Thrown ''EACCES'') else Inr ''%PDF''),
         os_writeFile :=
           (\<lambda>p c. if p = ''/work/content/archive/mini/b.md'' then Some (Thrown ''EACCES'')
                  else None),
         pdf_storeAsImage :=
           (\<lambda>p d n. if p = ''/pdfs/in/b.pdf'' then Inl (Thrown ''corrupt'')
                    else Inr (d @ ''/'' @ n @ ''.1.jpeg'')),
         s3_getObject :=
           (\<lambda>b k. if k = ''mini/documents/b.pdf'' then Inl (Thrown ''AccessDenied'')
                  else Inr (Readable (Inr [''%PDF'']))),
         s3_listObjectsV2 :=
           bucketListing [''mini/documents/a.pdf'', ''mini/documents/b.pdf'',
                          ''mini/documents/c.pdf''] \<rparr>"

text \<open>A world whose source tree holds /pdfs/in/a/x.pdf and /pdfs/in/b/x.pdf, with
  different contents.\<close>

definition twinWorld :: world where
  "twinWorld =
     quietWorld
       \<lparr> os_readdir :=
           (\<lambda>p. if p = ''/pdfs/in'' then Inr [''a'', ''b'']
                else if p = ''/pdfs/in/a'' \<or> p = ''/pdfs/in/b'' then Inr [''x.pdf'']
                else Inl (Thrown ''ENOENT'')),
         os_stat :=
           (\<lambda>p. if p = ''/pdfs/in/a'' \<or> p = ''/pdfs/in/b'' then Inr IsDirectory
                else Inr IsFile),
         os_readFile :=
           (\<lambda>p. if p = ''/pdfs/in/a/x.pdf'' then Inr ''first''
                else if p = ''/pdfs/in/b/x.pdf'' then Inr ''second''
                else Inl (Thrown ''ENOENT'')) \<rparr>"

text \<open>A world whose staging directory /staging holds the single file ADK1152.pdf.\<close>

definition stagingWorld :: world where
  "stagingWorld =
     quietWorld
       \<lparr> os_readdir :=
           (\<lambda>p. if p = ''/staging'' then Inr [''ADK1152.pdf'']
                else Inl (Thrown ''ENOENT'')) \<rparr>"




text \<open>A bucket with 2500 keys under the prefix mini/.\<close>

definition manyKeys :: "string list" where
  "manyKeys = map (\<lambda>i. ''mini/documents/'' @ decimal i @ ''.pdf'') [0..<2500]"

definition manyWorld :: world where
  "manyWorld = quietWorld \<lparr> s3_listObjectsV2 := bucketListing manyKeys \<rparr>"

section \<open>Properties\<close>

subsection \<open>Basic facts about outcomes\<close>

lemma andThen_Inr [simp]: "andThen (Inr a, evs) f = (fst (f a), evs @ snd (f a))"
  by (simp add: andThen_def split: prod.splits)

lemma andThen_Inl [simp]: "andThen (Inl e, evs) f = (Inl e, evs)"
  by (simp add: andThen_def)

lemma rethrowLogged_Inr [simp]: "rethrowLogged msg (Inr a, evs) = (Inr a, evs)"
  by (simp add: rethrowLogged_def)

lemma rethrowLogged_Inl [simp]: "rethrowLogged msg (Inl e, evs) = (Inl e, evs @ [Log Error msg])"
  by (simp add: rethrowLogged_def)

lemma fst_rethrowLogged [simp]: "fst (rethrowLogged msg m) = fst m"
  by (cases m; cases "fst m") (auto simp: rethrowLogged_def)

subsection \<open>Uploading one file\<close>

lemma getS3Key_eq:
  "getS3Key fileName category =
     category @ ''/'' @
     (if toLowerCase (extname fileName) = ''.pdf'' then ''documents'' else ''images'') @
     ''/'' @ fileName"
  by (simp add: getS3Key_def)

lemma uploadFile_dry:
  "truthy (dryRun options) \<Longrightarrow>
   uploadFile options w localFilePath relativeFilePath =
     (Inr (), [Log Info (''[DRY RUN] Would upload: '' @ localFilePath @ '' -> s3://'' @
                         bucket options @ ''/'' @ uploadKey options localFilePath)])"
  by (simp add: uploadFile_def uploadKey_def logger_def)

lemma uploadFile_unreadable:
  "\<not> truthy (dryRun options) \<Longrightarrow> os_readFile w localFilePath = Inl e \<Longrightarrow>
   uploadFile options w localFilePath relativeFilePath =
     (Inl e, [ReadFile localFilePath, Log Error (''Failed to upload '' @ localFilePath)])"
  by (simp add: uploadFile_def query_def)

lemma uploadFile_real:
  "\<not> truthy (dryRun options) \<Longrightarrow> os_readFile w localFilePath = Inr content \<Longrightarrow>
   uploadFile options w localFilePath relativeFilePath =
     (case s3_putObject w (bucket options) (uploadKey options localFilePath) content
             (getMimeType localFilePath) of
        None \<Rightarrow>
          (Inr (),
           [ReadFile localFilePath,
            PutObject (bucket options) (uploadKey options localFilePath) content
              (getMimeType localFilePath),
            Log Info (''Uploaded: '' @ localFilePath @ '' -> s3://'' @ bucket options @
                      ''/'' @ uploadKey options localFilePath)])
      | Some e \<Rightarrow>
          (Inl e,
           [ReadFile localFilePath,
            PutObject (bucket options) (uploadKey options localFilePath) content
              (getMimeType localFilePath),
            Log Error (''Failed to upload '' @ localFilePath)]))"
  by (simp add: uploadFile_def uploadKey_def query_def request_def logger_def Let_def
           split: option.splits)

lemma key_b: "uploadKey (exampleOptions True) ''/pdfs/in/b.pdf'' = ''misc/documents/b.pdf''"
  by code_simp

lemma faulty_read_b: "os_readFile faultyWorld ''/pdfs/in/b.pdf'' = Inl (Thrown ''EACCES'')"
  by (simp add: faultyWorld_def)

text \<open>
  Claim C10. In dry-run mode \<^verbatim>\<open>uploadFile\<close> logs the key and returns before the local
  file is read: its only event is the log line, whatever the state of the file. Outside
  dry-run mode an unreadable file makes the same call fail at the read, before any
  PutObject request.
\<close>

theorem dry_run_returns_before_read:
  "(truthy (dryRun options) \<longrightarrow>
      uploadFile options w localFilePath relativeFilePath =
        (Inr (), [Log Info (''[DRY RUN] Would upload: '' @ localFilePath @ '' -> s3://'' @
                            bucket options @ ''/'' @ uploadKey options localFilePath)])) \<and>
   (\<not> truthy (dryRun options) \<and> os_readFile w localFilePath = Inl e \<longrightarrow>
      uploadFile options w localFilePath relativeFilePath =
        (Inl e, [ReadFile localFilePath, Log Error (''Failed to upload '' @ localFilePath)]))"
  using uploadFile_dry uploadFile_unreadable by blast

theorem dry_run_returns_before_read_witness:
  "truthy (dryRun (exampleOptions True)) \<and>
   \<not> truthy (dryRun (exampleOptions False)) \<and>
   os_readFile faultyWorld ''/pdfs/in/b.pdf'' = Inl (Thrown ''EACCES'') \<and>
   uploadFile (exampleOptions True) faultyWorld ''/pdfs/in/b.pdf'' ''b.pdf'' =
     (Inr (), [Log Info ''[DRY RUN] Would upload: /pdfs/in/b.pdf -> s3://cmdiy-archive/misc/documents/b.pdf'']) \<and>
   uploadFile (exampleOptions False) faultyWorld ''/pdfs/in/b.pdf'' ''b.pdf'' =
     (Inl (Thrown ''EACCES''),
      [ReadFile ''/pdfs/in/b.pdf'', Log Error ''Failed to upload /pdfs/in/b.pdf''])"
  using dry_run_returns_before_read [where options = "exampleOptions True" and w = faultyWorld
          and localFilePath = "''/pdfs/in/b.pdf''" and relativeFilePath = "''b.pdf''"]
        dry_run_returns_before_read [where options = "exampleOptions False" and w = faultyWorld
          and localFilePath = "''/pdfs/in/b.pdf''" and relativeFilePath = "''b.pdf''"
          and e = "Thrown ''EACCES''"]
        key_b faulty_read_b
  by (simp add: truthy_def exampleOptions_def)

subsection \<open>String operations\<close>




lemma stripped_no_dot: "c \<notin> set s \<Longrightarrow> substring s 0 (lastIndexOf s c) = []"
  by (simp add: lastIndexOf_def substring_def Let_def)

lemma replaceWhiteSpaceRuns_no_space:
  "\<forall>c\<in>set s. \<not> isWhiteSpace c \<Longrightarrow> replaceWhiteSpaceRuns r s = s"
  by (induction s) auto

lemma replaceWhiteSpaceRuns_prefix:
  "\<forall>c\<in>set a. \<not> isWhiteSpace c \<Longrightarrow>
   replaceWhiteSpaceRuns r (a @ b) = a @ replaceWhiteSpaceRuns r b"
  by (induction a) auto

lemma replaceWhiteSpaceRuns_run:
  assumes "ws \<noteq> []" "\<forall>c\<in>set ws. isWhiteSpace c"
    and "case b of [] \<Rightarrow> True | d # _ \<Rightarrow> \<not> isWhiteSpace d"
  shows "replaceWhiteSpaceRuns r (ws @ b) = r @ replaceWhiteSpaceRuns r b"
proof -
  obtain c cs where ws: "ws = c # cs" using assms(1) by (cases ws) auto
  have "dropWhile isWhiteSpace (cs @ b) = b"
    using assms(2,3) ws by (cases b) (auto simp: dropWhile_append)
  then show ?thesis using assms(2) ws by simp
qed

lemma replaceWhiteSpaceRuns_singleSpaced:
  "singleSpaced s \<Longrightarrow> replaceWhiteSpaceRuns ''+'' s = spacesAsPlus s"
proof (induction s)
  case Nil
  then show ?case by (simp add: spacesAsPlus_def)
next
  case (Cons c cs)
  show ?case
  proof (cases "isWhiteSpace c")
    case True
    with Cons.prems have c: "c = CHR '' ''" and nxt: "case cs of [] \<Rightarrow> True | d # _ \<Rightarrow> \<not> isWhiteSpace d"
      and rest: "singleSpaced cs" by auto
    from nxt have "dropWhile isWhiteSpace cs = cs" by (cases cs) auto
    with True c Cons.IH [OF rest] show ?thesis by (simp add: spacesAsPlus_def)
  next
    case False
    with Cons.prems have rest: "singleSpaced cs" by simp
    from False have "c \<noteq> CHR '' ''" by (auto simp: isWhiteSpace_def)
    with False Cons.IH [OF rest] show ?thesis by (simp add: spacesAsPlus_def)
  qed
qed


subsection \<open>Metadata\<close>

lemma sanitizedFileName_eq:
  "sanitizedFileName (extractMetadata this filename) =
     removeNonSlugChars (replaceWhiteSpaceRuns ''-''
       (trim (substring filename 0 (lastIndexOf filename (CHR ''.'')))))"
  by (simp add: extractMetadata_def Let_def)

lemma sanitizedTitle_eq:
  "sanitizedTitle (extractMetadata this filename) =
     trim (substring filename 0 (lastIndexOf filename (CHR ''.'')))"
  by (simp add: extractMetadata_def Let_def)

lemma awsImage_eq:
  "awsImage (extractMetadata this filename) =
     awsLocation this @ ''/'' @ prefix this @ ''/images/'' @
     replaceWhiteSpaceRuns ''+'' (sanitizedTitle (extractMetadata this filename)) @ ''.jpeg''"
  by (simp add: extractMetadata_def Let_def)

lemma download_eq:
  "download (extractMetadata this filename) =
     awsLocation this @ ''/'' @ prefix this @ ''/documents/'' @
     replaceWhiteSpaceRuns ''+'' filename"
  by (simp add: extractMetadata_def Let_def)










lemma title_example: "sanitizedTitle (extractMetadata this ''ADK 1152.pdf'') = ''ADK 1152''"
  by code_simp

text \<open>
  Claim C4, as stated: the image URL carries the title with every space replaced by a plus
  sign, and nothing but spaces is replaced. For the title "ADK  1152", with two spaces, that
  would be ADK++1152.jpeg; the code gives ADK+1152.jpeg. A TAB in a file name is replaced as
  well.
\<close>

theorem remote_urls_counterexample:
  "sanitizedTitle (extractMetadata exampleMaker ''ADK  1152.pdf'') = ''ADK  1152'' \<and>
   awsImage (extractMetadata exampleMaker ''ADK  1152.pdf'') =
     ''https://bucket.s3.amazonaws.com/mini/images/ADK+1152.jpeg'' \<and>
   awsLocation exampleMaker @ ''/'' @ prefix exampleMaker @ ''/images/'' @
     spacesAsPlus (sanitizedTitle (extractMetadata exampleMaker ''ADK  1152.pdf'')) @ ''.jpeg'' =
     ''https://bucket.s3.amazonaws.com/mini/images/ADK++1152.jpeg'' \<and>
   awsImage (extractMetadata exampleMaker ''ADK  1152.pdf'') \<noteq>
     awsLocation exampleMaker @ ''/'' @ prefix exampleMaker @ ''/images/'' @
     spacesAsPlus (sanitizedTitle (extractMetadata exampleMaker ''ADK  1152.pdf'')) @ ''.jpeg'' \<and>
   download (extractMetadata exampleMaker [CHR ''A'', CHR 0x09, CHR ''B'', CHR ''.'', CHR ''p'', CHR ''d'', CHR ''f'']) =
     ''https://bucket.s3.amazonaws.com/mini/documents/A+B.pdf''"
  by code_simp

lemma plus_title: "replaceWhiteSpaceRuns ''+'' ''ADK 1152'' = ''ADK+1152''"
  by code_simp

text \<open>
  Claim C4, amended. The image URL is base/prefix/images/ followed by the title, in which
  every maximal run of white space is replaced by one plus sign, and by .jpeg; the download
  URL is base/prefix/documents/ followed by the file name treated the same way. Characters
  that are not white space pass through unchanged. Where the only white space is single,
  separate space characters this is the replacement of each space by a plus sign, so the
  title "ADK 1152" gives an image URL that ends in /images/ADK+1152.jpeg.
\<close>

theorem remote_urls:
  "awsImage (extractMetadata this filename) =
     awsLocation this @ ''/'' @ prefix this @ ''/images/'' @
     replaceWhiteSpaceRuns ''+'' (sanitizedTitle (extractMetadata this filename)) @ ''.jpeg'' \<and>
   download (extractMetadata this filename) =
     awsLocation this @ ''/'' @ prefix this @ ''/documents/'' @
     replaceWhiteSpaceRuns ''+'' filename \<and>
   ((\<forall>c\<in>set a. \<not> isWhiteSpace c) \<longrightarrow>
      replaceWhiteSpaceRuns ''+'' (a @ b) = a @ replaceWhiteSpaceRuns ''+'' b) \<and>
   (ws \<noteq> [] \<and> (\<forall>c\<in>set ws. isWhiteSpace c) \<and>
    (case b of [] \<Rightarrow> True | d # _ \<Rightarrow> \<not> isWhiteSpace d) \<longrightarrow>
      replaceWhiteSpaceRuns ''+'' (ws @ b) = ''+'' @ replaceWhiteSpaceRuns ''+'' b) \<and>
   (singleSpaced s \<longrightarrow> replaceWhiteSpaceRuns ''+'' s = spacesAsPlus s) \<and>
   (sanitizedTitle (extractMetadata this filename) = ''ADK 1152'' \<longrightarrow>
      awsImage (extractMetadata this filename) =
        awsLocation this @ ''/'' @ prefix this @ ''/images/ADK+1152.jpeg'')"
  using replaceWhiteSpaceRuns_prefix [of a "''+''" b]
        replaceWhiteSpaceRuns_run [of ws b "''+''"]
        replaceWhiteSpaceRuns_singleSpaced [of s] plus_title
  by (simp add: awsImage_eq download_eq del: replaceWhiteSpaceRuns.simps)

theorem remote_urls_witness:
  "sanitizedTitle (extractMetadata exampleMaker ''ADK 1152.pdf'') = ''ADK 1152'' \<and>
   awsImage (extractMetadata exampleMaker ''ADK 1152.pdf'') =
     ''https://bucket.s3.amazonaws.com/mini/images/ADK+1152.jpeg'' \<and>
   download (extractMetadata exampleMaker ''ADK 1152.pdf'') =
     ''https://bucket.s3.amazonaws.com/mini/documents/ADK+1152.pdf'' \<and>
   singleSpaced ''ADK 1152.pdf'' \<and>
   list_all (\<lambda>c. \<not> isWhiteSpace c) ''ADK'' \<and> list_all isWhiteSpace ''  '' \<and>
   replaceWhiteSpaceRuns ''+'' (''ADK'' @ ''  '' @ ''1152'') = ''ADK'' @ ''+'' @ ''1152''"
  using remote_urls [where this = exampleMaker and filename = "''ADK 1152.pdf''"
          and s = "''ADK 1152.pdf''" and a = "''ADK''" and b = "''  1152''"]
        remote_urls [where this = exampleMaker and filename = "''ADK 1152.pdf''"
          and ws = "''  ''" and b = "''1152''" and a = "[]" and s = "[]"]
        title_example [of exampleMaker]
  by (simp add: exampleMaker_def spacesAsPlus_def isWhiteSpace_def)

subsection \<open>Joining a directory and a plain segment\<close>

lemma splitSlash_not_Nil [simp]: "splitSlash s \<noteq> []"
  by (induction s) (auto split: list.splits)

lemma splitSlash_plain: "CHR ''/'' \<notin> set s \<Longrightarrow> splitSlash s = [s]"
  by (induction s) auto

lemma splitSlash_append:
  "splitSlash (a @ CHR ''/'' # b) = splitSlash a @ splitSlash b"
  by (induction a) (auto split: list.splits)

lemma normalizeStep_plain:
  "plainSegment seg \<Longrightarrow> normalizeStep allow res seg = res @ [seg]"
  by (simp add: normalizeStep_def plainSegment_def)

lemma joinSlash_snoc:
  "joinSlash (ys @ [seg]) = (if ys = [] then seg else joinSlash ys @ CHR ''/'' # seg)"
  by (induction ys rule: joinSlash.induct) auto

lemma normalizeString_snoc:
  "plainSegment seg \<Longrightarrow>
   \<exists>pre. normalizeString (d @ CHR ''/'' # seg) allow = pre @ seg \<and>
         (pre = [] \<or> last pre = CHR ''/'')"
  by (auto simp: normalizeString_def splitSlash_append splitSlash_plain plainSegment_def
        normalizeStep_plain joinSlash_snoc)

lemma normalize_snoc:
  assumes "plainSegment seg"
  shows "\<exists>pre. normalize (d @ CHR ''/'' # seg) = pre @ seg \<and> (pre = [] \<or> last pre = CHR ''/'')"
proof -
  from assms have seg: "seg \<noteq> []" "CHR ''/'' \<notin> set seg" by (auto simp: plainSegment_def)
  let ?p = "d @ CHR ''/'' # seg"
  obtain pre where pre: "normalizeString ?p (\<not> isAbsolute ?p) = pre @ seg"
      "pre = [] \<or> last pre = CHR ''/''"
    using normalizeString_snoc [OF assms] by blast
  have last: "last ?p \<noteq> CHR ''/''" using seg by (metis last_appendR last_ConsR last_in_set list.distinct(1))
  show ?thesis
  proof (cases "isAbsolute ?p")
    case True
    then have "normalize ?p = (CHR ''/'' # pre) @ seg"
      using pre seg last by (simp add: normalize_def Let_def)
    moreover have "CHR ''/'' # pre = [] \<or> last (CHR ''/'' # pre) = CHR ''/''"
      using pre(2) by auto
    ultimately show ?thesis by blast
  next
    case False
    then have "normalize ?p = pre @ seg"
      using pre seg last by (simp add: normalize_def Let_def)
    then show ?thesis using pre(2) by blast
  qed
qed

lemma normalize_plain: "plainSegment seg \<Longrightarrow> normalize seg = seg"
proof -
  assume a: "plainSegment seg"
  then have seg: "seg \<noteq> []" "CHR ''/'' \<notin> set seg" by (auto simp: plainSegment_def)
  from seg have "last seg \<noteq> CHR ''/''" by (metis last_in_set)
  moreover from seg have "\<not> isAbsolute seg"
    by (auto simp: isAbsolute_def split: list.splits)
  moreover have "normalizeString seg allow = seg" for allow
    using a seg by (simp add: normalizeString_def splitSlash_plain normalizeStep_plain)
  ultimately show ?thesis using seg by (simp add: normalize_def Let_def)
qed

lemma path_join_plain:
  assumes "plainSegment seg"
  shows "\<exists>pre. path_join [d, seg] = pre @ seg \<and> (pre = [] \<or> last pre = CHR ''/'')"
proof (cases "d = []")
  case True
  then have "path_join [d, seg] = [] @ seg"
    using assms normalize_plain [OF assms] by (simp add: path_join_def plainSegment_def)
  then show ?thesis by blast
next
  case False
  then have "path_join [d, seg] = normalize (d @ CHR ''/'' # seg)"
    using assms by (simp add: path_join_def plainSegment_def)
  then show ?thesis using normalize_snoc [OF assms] by simp
qed

lemma lastComponent_snoc:
  assumes "seg \<noteq> []" "CHR ''/'' \<notin> set seg" "pre = [] \<or> last pre = CHR ''/''"
  shows "lastComponent (pre @ seg) = seg"
proof -
  have hd: "hd (rev seg) \<noteq> CHR ''/''" using assms(1,2)
    by (metis hd_rev last_in_set)
  have d: "dropWhile (\<lambda>c. c = CHR ''/'') (rev seg @ rev pre) = rev seg @ rev pre"
    using assms(1) hd by (cases "rev seg") auto
  have t: "takeWhile (\<lambda>c. c \<noteq> CHR ''/'') (rev seg @ rev pre) = rev seg"
  proof (cases pre rule: rev_cases)
    case Nil
    then show ?thesis using assms(2) by (auto simp: takeWhile_eq_all_conv)
  next
    case (snoc ys y)
    with assms(3) have "y = CHR ''/''" by simp
    with snoc assms(2) show ?thesis by (simp add: takeWhile_append)
  qed
  show ?thesis by (simp add: lastComponent_def d t)
qed

lemma basename_path_join:
  "plainSegment seg \<Longrightarrow> basename (path_join [d, seg]) = seg"
proof -
  assume a: "plainSegment seg"
  then obtain pre where "path_join [d, seg] = pre @ seg" "pre = [] \<or> last pre = CHR ''/''"
    using path_join_plain by blast
  then show ?thesis
    using a lastComponent_snoc [of seg pre] by (simp add: basename_def plainSegment_def)
qed

lemma not_slug_slash: "\<not> isSlugChar (CHR ''/'')" "\<not> isSlugChar (CHR ''.'')"
  by (simp_all add: isSlugChar_def)

lemma plainSegment_md: "plainSegment (removeNonSlugChars s @ ''.md'')"
proof -
  have "CHR ''/'' \<notin> set (removeNonSlugChars s)"
    using not_slug_slash by (auto simp: removeNonSlugChars_def)
  moreover have "removeNonSlugChars s @ ''.md'' \<noteq> ''.''" "removeNonSlugChars s @ ''.md'' \<noteq> ''..''"
    by (auto simp: append_eq_Cons_conv)
  ultimately show ?thesis by (simp add: plainSegment_def)
qed

lemma splitSlash_no_slash: "\<forall>s\<in>set (splitSlash x). CHR ''/'' \<notin> set s"
  by (induction x) (auto split: list.splits)

lemma normalizeStep_keeps_plain:
  "\<forall>s\<in>set res. plainSegment s \<Longrightarrow> CHR ''/'' \<notin> set seg \<Longrightarrow>
   \<forall>s\<in>set (normalizeStep False res seg). plainSegment s"
  by (auto simp: normalizeStep_def plainSegment_def dest: in_set_butlastD)

lemma foldl_normalizeStep_plain:
  "\<forall>s\<in>set res. plainSegment s \<Longrightarrow> \<forall>s\<in>set xs. CHR ''/'' \<notin> set s \<Longrightarrow>
   \<forall>s\<in>set (foldl (normalizeStep False) res xs). plainSegment s"
proof (induction xs arbitrary: res)
  case Nil
  then show ?case by simp
next
  case (Cons x xs)
  have "\<forall>s\<in>set (normalizeStep False res x). plainSegment s"
    using Cons.prems by (intro normalizeStep_keeps_plain) auto
  then show ?case using Cons by simp
qed

lemma foldl_normalizeStep_id:
  "\<forall>s\<in>set ys. plainSegment s \<Longrightarrow> foldl (normalizeStep allow) res ys = res @ ys"
  by (induction ys arbitrary: res) (simp_all add: normalizeStep_plain)

lemma splitSlash_joinSlash:
  "ys \<noteq> [] \<Longrightarrow> \<forall>s\<in>set ys. CHR ''/'' \<notin> set s \<Longrightarrow> splitSlash (joinSlash ys) = ys"
proof (induction ys rule: joinSlash.induct)
  case 1
  then show ?case by simp
next
  case (2 p)
  then show ?case by (simp add: splitSlash_plain)
next
  case (3 p q ps)
  then show ?case by (simp add: splitSlash_append splitSlash_plain)
qed

lemma normalizeStep_empty: "normalizeStep allow res [] = res"
  by (simp add: normalizeStep_def)

lemma joinSlash_last:
  "ys \<noteq> [] \<Longrightarrow> \<forall>s\<in>set ys. plainSegment s \<Longrightarrow> joinSlash ys \<noteq> [] \<and> last (joinSlash ys) \<noteq> CHR ''/''"
proof (induction ys rule: joinSlash.induct)
  case 1
  then show ?case by simp
next
  case (2 p)
  then show ?case by (metis joinSlash.simps(2) last_in_set list.set_intros(1) plainSegment_def)
next
  case (3 p q ps)
  then show ?case by simp
qed

lemma normalize_absolute_then_plain:
  assumes abs: "isAbsolute x" and seg: "plainSegment seg"
  shows "normalize (normalize x @ CHR ''/'' # seg) =
           (if last (normalize x) = CHR ''/'' then normalize x else normalize x @ ''/'') @ seg"
proof -
  from abs obtain x' where x: "x = CHR ''/'' # x'"
    by (auto simp: isAbsolute_def split: list.splits)
  let ?ys = "foldl (normalizeStep False) [] (splitSlash x)"
  have plain: "\<forall>s\<in>set ?ys. plainSegment s"
    by (rule foldl_normalizeStep_plain) (simp_all add: splitSlash_no_slash)
  have segp: "seg \<noteq> []" "CHR ''/'' \<notin> set seg" using seg by (auto simp: plainSegment_def)
  have lastseg: "last seg \<noteq> CHR ''/''" using segp by (metis last_in_set)
  show ?thesis
  proof (cases "?ys = []")
    case True
    then have d: "normalize x = ''/''"
      using abs x by (simp add: normalize_def normalizeString_def Let_def)
    have "normalize (''/'' @ CHR ''/'' # seg) = CHR ''/'' # seg"
      using segp lastseg seg
      by (simp add: normalize_def normalizeString_def Let_def isAbsolute_def
            splitSlash_plain normalizeStep_empty normalizeStep_plain)
    then show ?thesis by (simp add: d)
  next
    case False
    let ?q = "joinSlash ?ys"
    from joinSlash_last [OF False plain] have q: "?q \<noteq> []" "last ?q \<noteq> CHR ''/''" by simp_all
    let ?post = "if last x = CHR ''/'' then ''/'' else []"
    have d: "normalize x = CHR ''/'' # ?q @ ?post"
      using abs x q by (simp add: normalize_def normalizeString_def Let_def)
    have noslash: "\<forall>s\<in>set ?ys. CHR ''/'' \<notin> set s" using plain by (simp add: plainSegment_def)
    have sp: "splitSlash (normalize x @ CHR ''/'' # seg) = [] # ?ys @ (if last x = CHR ''/'' then [[]] else []) @ [seg]"
    proof -
      have "normalize x @ CHR ''/'' # seg = [] @ CHR ''/'' # (?q @ ?post @ CHR ''/'' # seg)"
        by (simp add: d)
      then have "splitSlash (normalize x @ CHR ''/'' # seg) =
                   splitSlash [] @ splitSlash (?q @ ?post @ CHR ''/'' # seg)"
        by (simp only: splitSlash_append)
      also have "splitSlash (?q @ ?post @ CHR ''/'' # seg) =
                   ?ys @ (if last x = CHR ''/'' then [[]] else []) @ [seg]"
        using segp by (simp add: splitSlash_append splitSlash_joinSlash [OF False noslash]
                         splitSlash_plain)
      finally show ?thesis by simp
    qed
    have fold: "foldl (normalizeStep False) [] (splitSlash (normalize x @ CHR ''/'' # seg)) = ?ys @ [seg]"
    proof -
      have a: "foldl (normalizeStep False) [] ?ys = ?ys"
        using foldl_normalizeStep_id [OF plain, of False "[]"] by simp
      have b: "foldl (normalizeStep False) ?ys (if last x = CHR ''/'' then [[]] else []) = ?ys"
        by (simp add: normalizeStep_empty)
      have "foldl (normalizeStep False) [] (splitSlash (normalize x @ CHR ''/'' # seg)) =
              foldl (normalizeStep False) (foldl (normalizeStep False)
                (foldl (normalizeStep False) [] ?ys) (if last x = CHR ''/'' then [[]] else [])) [seg]"
        unfolding sp by (simp add: normalizeStep_empty)
      also have "\<dots> = ?ys @ [seg]"
        unfolding a b using seg by (simp add: normalizeStep_plain)
      finally show ?thesis .
    qed
    have absd: "isAbsolute (normalize x @ CHR ''/'' # seg)" by (simp add: d isAbsolute_def)
    have ne: "normalize x @ CHR ''/'' # seg \<noteq> []" by simp
    have lastd: "last (normalize x @ CHR ''/'' # seg) \<noteq> CHR ''/''" using segp lastseg by simp
    have "normalize (normalize x @ CHR ''/'' # seg) = CHR ''/'' # joinSlash (?ys @ [seg])"
      using absd lastd fold segp False
      by (simp add: normalize_def [of "normalize x @ CHR ''/'' # seg"] normalizeString_def Let_def
            joinSlash_snoc)
    also have "\<dots> = CHR ''/'' # ?q @ CHR ''/'' # seg" using False by (simp add: joinSlash_snoc)
    finally show ?thesis using q by (simp add: d)
  qed
qed


lemma isAbsolute_joinSlash: "isAbsolute p \<Longrightarrow> isAbsolute (joinSlash (p # ps))"
  by (cases ps) (auto simp: isAbsolute_def split: list.splits)

lemma normalize_absolute_not_Nil: "isAbsolute x \<Longrightarrow> normalize x \<noteq> []"
  by (auto simp: normalize_def Let_def)

lemma path_join_inside:
  assumes "isAbsolute cwd" "plainSegment seg"
  shows "path_join [path_join (cwd # rest), seg] =
           (if last (path_join (cwd # rest)) = CHR ''/'' then path_join (cwd # rest)
            else path_join (cwd # rest) @ ''/'') @ seg"
proof -
  from assms(1) have ne: "cwd \<noteq> []" by (auto simp: isAbsolute_def)
  let ?x = "joinSlash (cwd # filter (\<lambda>a. a \<noteq> []) rest)"
  have d: "path_join (cwd # rest) = normalize ?x"
    using ne by (simp add: path_join_def)
  have abs: "isAbsolute ?x" by (rule isAbsolute_joinSlash [OF assms(1)])
  have "path_join [normalize ?x, seg] = normalize (normalize ?x @ CHR ''/'' # seg)"
    using normalize_absolute_not_Nil [OF abs] assms(2)
    by (simp add: path_join_def plainSegment_def)
  then show ?thesis
    unfolding d using normalize_absolute_then_plain [OF abs assms(2)] by simp
qed

subsection \<open>Batches\<close>

lemma promiseAll_snd: "snd (promiseAll f xs) = concat (map (\<lambda>x. snd (f x)) xs)"
  by (induction xs) (auto split: prod.splits)



lemma forEachAwait_all_ok:
  "\<forall>x\<in>set xs. fst (f x) = Inr () \<Longrightarrow>
   forEachAwait f xs = (Inr (), concat (map (\<lambda>x. snd (f x)) xs))"
proof (induction xs)
  case Nil
  then show ?case by simp
next
  case (Cons a xs)
  then obtain evs where "f a = (Inr (), evs)"
    by (metis list.set_intros(1) prod.collapse)
  with Cons show ?case by simp
qed


lemma forEachAwait_ok_iff:
  "fst (forEachAwait f xs) = Inr () \<longleftrightarrow> (\<forall>x\<in>set xs. fst (f x) = Inr ())"
proof (induction xs)
  case Nil
  then show ?case by simp
next
  case (Cons a xs)
  then show ?case
    by (cases "f a"; cases "fst (f a)") (auto simp: andThen_def split: prod.splits)
qed

subsection \<open>Writing one markdown file\<close>

lemma processFile_skip:
  "\<not> endsWith (toLowerCase filename) ''.pdf'' \<Longrightarrow>
   processFile this w filename outputDir =
     (Inr (), [Log Debug (''Skipping non-PDF file: '' @ filename)])"
  by (simp add: processFile_def logger_def)

lemma processFile_pdf:
  "endsWith (toLowerCase filename) ''.pdf'' \<Longrightarrow>
   processFile this w filename outputDir =
     (let metadata = extractMetadata this filename;
          outputPath = path_join [outputDir, sanitizedFileName metadata @ ''.md''];
          contents = generateMarkdownContent metadata
      in case os_writeFile w outputPath contents of
           None \<Rightarrow>
             (Inr (), [WriteFile outputPath contents, Log Info (''Created file: '' @ outputPath)])
         | Some e \<Rightarrow>
             (Inl e, [WriteFile outputPath contents,
                      Log Error (''Failed to process file: '' @ filename)]))"
  by (simp add: processFile_def logger_def request_def Let_def split: option.splits)

lemma createFilesFromDirectory_unfold:
  assumes "os_mkdir w (path_join [os_cwd w, outputBasePath this, prefix this]) = None"
    and "os_readdir w stagingFolder = Inr files"
  shows "createFilesFromDirectory this w stagingFolder =
     (let outputDir = path_join [os_cwd w, outputBasePath this, prefix this];
          batch = promiseAll (\<lambda>filename. processFile this w filename outputDir) files;
          before = [Mkdir outputDir, Log Debug (''Ensured directory exists: '' @ outputDir),
                    Readdir stagingFolder] @ snd batch
      in case fst batch of
           Inr _ \<Rightarrow>
             (Inr (), before @ [Log Info (''Successfully processed '' @ decimal (length files) @
                                          '' files from '' @ stagingFolder)])
         | Inl e \<Rightarrow>
             (Inl e, before @ [Log Error (''Failed to process directory: '' @ stagingFolder)]))"
proof -
  let ?outputDir = "path_join [os_cwd w, outputBasePath this, prefix this]"
  let ?batch = "promiseAll (\<lambda>filename. processFile this w filename ?outputDir) files"
  have e: "ensureDirectoryExists w ?outputDir =
      (Inr (), [Mkdir ?outputDir, Log Debug (''Ensured directory exists: '' @ ?outputDir)])"
    using assms(1) by (simp add: ensureDirectoryExists_def request_def logger_def)
  obtain r evs where b: "?batch = (r, evs)" by (cases ?batch)
  show ?thesis
    using assms(2) e b
    by (cases r) (simp_all add: createFilesFromDirectory_def Let_def query_def logger_def)
qed

subsection \<open>Markdown emission\<close>

lemma processFile_events_mem:
  assumes "endsWith (toLowerCase filename) ''.pdf''"
  shows "WriteFile (path_join [outputDir, sanitizedFileName (extractMetadata this filename) @ ''.md''])
           (generateMarkdownContent (extractMetadata this filename))
         \<in> set (snd (processFile this w filename outputDir))"
  using assms by (simp add: processFile_pdf Let_def split: option.splits)

lemma createFilesFromDirectory_events:
  assumes "os_mkdir w (path_join [os_cwd w, outputBasePath this, prefix this]) = None"
    and "os_readdir w stagingFolder = Inr files"
  shows "hd (snd (createFilesFromDirectory this w stagingFolder)) =
           Mkdir (path_join [os_cwd w, outputBasePath this, prefix this])"
    and "filename \<in> set files \<Longrightarrow>
         set (snd (processFile this w filename
                (path_join [os_cwd w, outputBasePath this, prefix this])))
           \<subseteq> set (snd (createFilesFromDirectory this w stagingFolder))"
  using createFilesFromDirectory_unfold [OF assms]
  by (auto simp: Let_def promiseAll_snd split: sum.splits)

lemma generateMarkdownContent_order:
  "generateMarkdownContent metadata =
     ''---'' @ LF @
     ''    title: '' @ sanitizedTitle metadata @ LF @
     ''    slug: '' @ sanitizedFileName metadata @ LF @
     ''    description:'' @ LF @
     ''    code: '' @ sanitizedFileName metadata @ LF @
     ''    image: '' @ awsImage metadata @ LF @
     ''    download: '' @ download metadata @ LF @
     ''---''"
  by (simp add: generateMarkdownContent_def)

lemma staging_run:
  "createFilesFromDirectory exampleMaker stagingWorld ''/staging'' =
     (Inr (),
      [Mkdir ''/work/content/archive/mini'',
       Log Debug ''Ensured directory exists: /work/content/archive/mini'',
       Readdir ''/staging'',
       WriteFile ''/work/content/archive/mini/ADK1152.md''
         (generateMarkdownContent (extractMetadata exampleMaker ''ADK1152.pdf'')),
       Log Info ''Created file: /work/content/archive/mini/ADK1152.md'',
       Log Info ''Successfully processed 1 files from /staging''])"
  by code_simp

lemma staging_contents:
  "contains (generateMarkdownContent (extractMetadata exampleMaker ''ADK1152.pdf''))
     ''slug: ADK1152''"
  "contains (generateMarkdownContent (extractMetadata exampleMaker ''ADK1152.pdf''))
     ''download: https://bucket.s3.amazonaws.com/mini/documents/ADK1152.pdf''"
  by code_simp+

text \<open>
  Claim C8. For a file name that ends in .pdf, in a listing of the staging directory,
  \<^verbatim>\<open>createFilesFromDirectory\<close> first creates the output directory (the working directory,
  the output base path and the prefix joined; \<^verbatim>\<open>mkdir\<close> is recursive) and writes, inside
  it, a file whose name is the slug followed by .md: with an absolute working directory
  the path written is the output directory, a slash and that name. Its content is the
  front matter with the keys title, slug, description, code, image and download, in this
  order. For the directory that holds ADK1152.pdf, the prefix mini and the base
  https://bucket.s3.amazonaws.com the file is ADK1152.md, and it contains "slug: ADK1152"
  and "download: https://bucket.s3.amazonaws.com/mini/documents/ADK1152.pdf".
\<close>

theorem markdown_file_emitted:
  "(endsWith (toLowerCase filename) ''.pdf'' \<and>
    os_mkdir w (path_join [os_cwd w, outputBasePath this, prefix this]) = None \<and>
    os_readdir w stagingFolder = Inr files \<and> filename \<in> set files \<longrightarrow>
      (let outputDir = path_join [os_cwd w, outputBasePath this, prefix this];
           metadata = extractMetadata this filename;
           outputPath = path_join [outputDir, sanitizedFileName metadata @ ''.md''];
           events = snd (createFilesFromDirectory this w stagingFolder)
       in hd events = Mkdir outputDir \<and>
          basename outputPath = sanitizedFileName metadata @ ''.md'' \<and>
          (isAbsolute (os_cwd w) \<longrightarrow>
             outputPath =
               (if last outputDir = CHR ''/'' then outputDir else outputDir @ ''/'') @
               sanitizedFileName metadata @ ''.md'') \<and>
          WriteFile outputPath (generateMarkdownContent metadata) \<in> set events \<and>
          generateMarkdownContent metadata =
            ''---'' @ LF @
            ''    title: '' @ sanitizedTitle metadata @ LF @
            ''    slug: '' @ sanitizedFileName metadata @ LF @
            ''    description:'' @ LF @
            ''    code: '' @ sanitizedFileName metadata @ LF @
            ''    image: '' @ awsImage metadata @ LF @
            ''    download: '' @ download metadata @ LF @
            ''---'')) \<and>
   createFilesFromDirectory exampleMaker stagingWorld ''/staging'' =
     (Inr (),
      [Mkdir ''/work/content/archive/mini'',
       Log Debug ''Ensured directory exists: /work/content/archive/mini'',
       Readdir ''/staging'',
       WriteFile ''/work/content/archive/mini/ADK1152.md''
         (generateMarkdownContent (extractMetadata exampleMaker ''ADK1152.pdf'')),
       Log Info ''Created file: /work/content/archive/mini/ADK1152.md'',
       Log Info ''Successfully processed 1 files from /staging'']) \<and>
   contains (generateMarkdownContent (extractMetadata exampleMaker ''ADK1152.pdf''))
     ''slug: ADK1152'' \<and>
   contains (generateMarkdownContent (extractMetadata exampleMaker ''ADK1152.pdf''))
     ''download: https://bucket.s3.amazonaws.com/mini/documents/ADK1152.pdf''"
proof (intro conjI impI)
  assume h: "endsWith (toLowerCase filename) ''.pdf'' \<and>
    os_mkdir w (path_join [os_cwd w, outputBasePath this, prefix this]) = None \<and>
    os_readdir w stagingFolder = Inr files \<and> filename \<in> set files"
  let ?outputDir = "path_join [os_cwd w, outputBasePath this, prefix this]"
  let ?metadata = "extractMetadata this filename"
  let ?outputPath = "path_join [?outputDir, sanitizedFileName ?metadata @ ''.md'']"
  let ?events = "snd (createFilesFromDirectory this w stagingFolder)"
  have 1: "hd ?events = Mkdir ?outputDir"
    using h createFilesFromDirectory_events(1) by blast
  have 2: "basename ?outputPath = sanitizedFileName ?metadata @ ''.md''"
    using basename_path_join [OF plainSegment_md] by (simp add: sanitizedFileName_eq)
  have "WriteFile ?outputPath (generateMarkdownContent ?metadata)
          \<in> set (snd (processFile this w filename ?outputDir))"
    using h processFile_events_mem by blast
  then have 3: "WriteFile ?outputPath (generateMarkdownContent ?metadata) \<in> set ?events"
    using h createFilesFromDirectory_events(2) by blast
  have 4: "isAbsolute (os_cwd w) \<longrightarrow>
             ?outputPath =
               (if last ?outputDir = CHR ''/'' then ?outputDir else ?outputDir @ ''/'') @
               sanitizedFileName ?metadata @ ''.md''"
    using path_join_inside [OF _ plainSegment_md, of "os_cwd w" "[outputBasePath this, prefix this]"]
    by (simp add: sanitizedFileName_eq)
  show "let outputDir = ?outputDir;
           metadata = extractMetadata this filename;
           outputPath = path_join [outputDir, sanitizedFileName metadata @ ''.md''];
           events = snd (createFilesFromDirectory this w stagingFolder)
       in hd events = Mkdir outputDir \<and>
          basename outputPath = sanitizedFileName metadata @ ''.md'' \<and>
          (isAbsolute (os_cwd w) \<longrightarrow>
             outputPath =
               (if last outputDir = CHR ''/'' then outputDir else outputDir @ ''/'') @
               sanitizedFileName metadata @ ''.md'') \<and>
          WriteFile outputPath (generateMarkdownContent metadata) \<in> set events \<and>
          generateMarkdownContent metadata =
            ''---'' @ LF @
            ''    title: '' @ sanitizedTitle metadata @ LF @
            ''    slug: '' @ sanitizedFileName metadata @ LF @
            ''    description:'' @ LF @
            ''    code: '' @ sanitizedFileName metadata @ LF @
            ''    image: '' @ awsImage metadata @ LF @
            ''    download: '' @ download metadata @ LF @
            ''---''"
    unfolding Let_def using 1 2 3 4 generateMarkdownContent_order by blast
qed (rule staging_run staging_contents)+

lemma staging_facts:
  "endsWith (toLowerCase ''ADK1152.pdf'') ''.pdf''"
  "os_mkdir stagingWorld (path_join [os_cwd stagingWorld, outputBasePath exampleMaker, prefix exampleMaker]) = None"
  "os_readdir stagingWorld ''/staging'' = Inr [''ADK1152.pdf'']"
  "path_join [os_cwd stagingWorld, outputBasePath exampleMaker, prefix exampleMaker] = ''/work/content/archive/mini''"
  "sanitizedFileName (extractMetadata exampleMaker ''ADK1152.pdf'') = ''ADK1152''"
  "path_join [''/work/content/archive/mini'', ''ADK1152.md''] = ''/work/content/archive/mini/ADK1152.md''"
  "isAbsolute (os_cwd stagingWorld)"
  by code_simp+

theorem markdown_file_emitted_witness:
  "endsWith (toLowerCase ''ADK1152.pdf'') ''.pdf'' \<and>
   os_readdir stagingWorld ''/staging'' = Inr [''ADK1152.pdf''] \<and>
   hd (snd (createFilesFromDirectory exampleMaker stagingWorld ''/staging'')) =
     Mkdir ''/work/content/archive/mini'' \<and>
   basename ''/work/content/archive/mini/ADK1152.md'' = ''ADK1152.md'' \<and>
   isAbsolute (os_cwd stagingWorld) \<and>
   WriteFile ''/work/content/archive/mini/ADK1152.md''
     (generateMarkdownContent (extractMetadata exampleMaker ''ADK1152.pdf''))
     \<in> set (snd (createFilesFromDirectory exampleMaker stagingWorld ''/staging''))"
  using markdown_file_emitted [where filename = "''ADK1152.pdf''" and w = stagingWorld
          and this = exampleMaker and stagingFolder = "''/staging''"
          and files = "[''ADK1152.pdf'']"]
        staging_facts
  by (simp add: Let_def)

text \<open>
  Claim C1, as stated: a file name whose slug is empty makes the derivation of the metadata
  fail with InvalidFilename. The source has no such error: for the name "!!!.pdf" the slug
  is empty, and \<^verbatim>\<open>processFile\<close> writes the file .md and succeeds.
\<close>

theorem empty_slug_counterexample:
  "endsWith (toLowerCase ''!!!.pdf'') ''.pdf'' \<and>
   sanitizedFileName (extractMetadata exampleMaker ''!!!.pdf'') = [] \<and>
   processFile exampleMaker quietWorld ''!!!.pdf'' ''/out'' =
     (Inr (),
      [WriteFile ''/out/.md'' (generateMarkdownContent (extractMetadata exampleMaker ''!!!.pdf'')),
       Log Info ''Created file: /out/.md''])"
  by code_simp

text \<open>
  Claim C1, amended. For every file name that ends in .pdf and whose extension-stripped,
  sanitized form is the empty string, the metadata is derived without an error, with an
  empty \<^verbatim>\<open>sanitizedFileName\<close>, and \<^verbatim>\<open>processFile\<close> writes the markdown file named .md into
  the output directory; it fails only when that write fails.
\<close>

theorem empty_slug_is_written:
  "endsWith (toLowerCase filename) ''.pdf'' \<and>
   sanitizedFileName (extractMetadata this filename) = [] \<longrightarrow>
     basename (path_join [outputDir, ''.md'']) = ''.md'' \<and>
     processFile this w filename outputDir =
       (case os_writeFile w (path_join [outputDir, ''.md''])
               (generateMarkdownContent (extractMetadata this filename)) of
          None \<Rightarrow>
            (Inr (),
             [WriteFile (path_join [outputDir, ''.md''])
                (generateMarkdownContent (extractMetadata this filename)),
              Log Info (''Created file: '' @ path_join [outputDir, ''.md''])])
        | Some e \<Rightarrow>
            (Inl e,
             [WriteFile (path_join [outputDir, ''.md''])
                (generateMarkdownContent (extractMetadata this filename)),
              Log Error (''Failed to process file: '' @ filename)]))"
proof (intro impI conjI)
  assume h: "endsWith (toLowerCase filename) ''.pdf'' \<and>
    sanitizedFileName (extractMetadata this filename) = []"
  show "basename (path_join [outputDir, ''.md'']) = ''.md''"
    using basename_path_join [of "''.md''" outputDir] by (simp add: plainSegment_def)
  show "processFile this w filename outputDir =
       (case os_writeFile w (path_join [outputDir, ''.md''])
               (generateMarkdownContent (extractMetadata this filename)) of
          None \<Rightarrow>
            (Inr (),
             [WriteFile (path_join [outputDir, ''.md''])
                (generateMarkdownContent (extractMetadata this filename)),
              Log Info (''Created file: '' @ path_join [outputDir, ''.md''])])
        | Some e \<Rightarrow>
            (Inl e,
             [WriteFile (path_join [outputDir, ''.md''])
                (generateMarkdownContent (extractMetadata this filename)),
              Log Error (''Failed to process file: '' @ filename)]))"
    using h by (simp add: processFile_pdf Let_def split: option.splits)
qed

lemma empty_slug_facts:
  "endsWith (toLowerCase ''(?).PDF'') ''.pdf''"
  "sanitizedFileName (extractMetadata exampleMaker ''(?).PDF'') = []"
  "path_join [''/work/content/archive/mini'', ''.md''] = ''/work/content/archive/mini/.md''"
  "os_writeFile faultyWorld ''/work/content/archive/mini/.md'' c = None"
  by code_simp+

theorem empty_slug_is_written_witness:
  "endsWith (toLowerCase ''(?).PDF'') ''.pdf'' \<and>
   sanitizedFileName (extractMetadata exampleMaker ''(?).PDF'') = [] \<and>
   basename ''/work/content/archive/mini/.md'' = ''.md'' \<and>
   processFile exampleMaker faultyWorld ''(?).PDF'' ''/work/content/archive/mini'' =
     (Inr (),
      [WriteFile ''/work/content/archive/mini/.md''
         (generateMarkdownContent (extractMetadata exampleMaker ''(?).PDF'')),
       Log Info ''Created file: /work/content/archive/mini/.md''])"
  using empty_slug_is_written [where filename = "''(?).PDF''" and this = exampleMaker
          and w = faultyWorld and outputDir = "''/work/content/archive/mini''"]
        empty_slug_facts
  by simp

subsection \<open>The key of an uploaded file\<close>

lemma key_examples:
  "getS3Key ''manual.pdf'' ''misc'' = ''misc/documents/manual.pdf''"
  "getS3Key ''cover.png'' ''misc'' = ''misc/images/cover.png''"
  by code_simp+

lemma uploadFile_put_event:
  "\<not> truthy (dryRun options) \<Longrightarrow> os_readFile w localFilePath = Inr content \<Longrightarrow>
   PutObject (bucket options) (uploadKey options localFilePath) content
     (getMimeType localFilePath) \<in> set (snd (uploadFile options w localFilePath relativeFilePath))"
  by (simp add: uploadFile_real split: option.splits)

text \<open>
  Claim C5. The key of an uploaded file is the category, the subfolder and the file name,
  joined by slashes; the file name is the base name of the local path, unchanged. The
  subfolder is documents exactly when the lower-cased extension is .pdf, and images
  otherwise, in particular for the extensions .jpg, .jpeg, .png, .gif and .webp. A real run
  sends the PutObject request under this key. For the category misc, manual.pdf goes to
  misc/documents/manual.pdf and cover.png to misc/images/cover.png.
\<close>

theorem upload_key_layout:
  "getS3Key fileName category =
     category @ ''/'' @
     (if toLowerCase (extname fileName) = ''.pdf'' then ''documents'' else ''images'') @
     ''/'' @ fileName \<and>
   (toLowerCase (extname fileName) \<in> {''.jpg'', ''.jpeg'', ''.png'', ''.gif'', ''.webp''} \<longrightarrow>
      getS3Key fileName category = category @ ''/images/'' @ fileName) \<and>
   (\<not> truthy (dryRun options) \<and> os_readFile w localFilePath = Inr content \<longrightarrow>
      PutObject (bucket options)
        (getS3Key (basename localFilePath) (orElse (defaultCategory options) ''misc''))
        content (getMimeType localFilePath)
        \<in> set (snd (uploadFile options w localFilePath relativeFilePath))) \<and>
   getS3Key ''manual.pdf'' ''misc'' = ''misc/documents/manual.pdf'' \<and>
   getS3Key ''cover.png'' ''misc'' = ''misc/images/cover.png''"
  using uploadFile_put_event [of options w localFilePath content relativeFilePath] key_examples
  by (auto simp: getS3Key_eq uploadKey_def)

lemma cover_facts:
  "toLowerCase (extname ''Cover.PNG'') = ''.png''"
  "basename ''/pdfs/in/Cover.PNG'' = ''Cover.PNG''"
  "getMimeType ''/pdfs/in/Cover.PNG'' = ''image/png''"
  "os_readFile quietWorld ''/pdfs/in/Cover.PNG'' = Inr ''%PDF''"
  "orElse (defaultCategory (exampleOptions False)) ''misc'' = ''misc''"
  "bucket (exampleOptions False) = ''cmdiy-archive''"
  "\<not> truthy (dryRun (exampleOptions False))"
  by code_simp+

theorem upload_key_layout_witness:
  "toLowerCase (extname ''Cover.PNG'') = ''.png'' \<and>
   \<not> truthy (dryRun (exampleOptions False)) \<and>
   os_readFile quietWorld ''/pdfs/in/Cover.PNG'' = Inr ''%PDF'' \<and>
   getS3Key ''Cover.PNG'' ''misc'' = ''misc/images/Cover.PNG'' \<and>
   PutObject ''cmdiy-archive'' ''misc/images/Cover.PNG'' ''%PDF'' ''image/png''
     \<in> set (snd (uploadFile (exampleOptions False) quietWorld ''/pdfs/in/Cover.PNG'' ''Cover.PNG''))"
  using upload_key_layout [where fileName = "''Cover.PNG''" and category = "''misc''"
          and options = "exampleOptions False" and w = quietWorld
          and localFilePath = "''/pdfs/in/Cover.PNG''" and content = "''%PDF''"
          and relativeFilePath = "''Cover.PNG''"]
        cover_facts
  by auto

subsection \<open>Uploading a tree\<close>

lemma uploadAll_unfold:
  assumes "walkDirectory depth w (localPath options) (localPath options) validExtensions =
             Some (Inr files, wevs)"
  shows "uploadAll depth options w =
     Some (let loop = forEachAwait (\<lambda>file. uploadFile options w (fullPath file)
                                          (relativePath file)) files;
               before = [Log Info (''Starting upload from '' @ localPath options @
                                   '' to s3://'' @ bucket options)] @
                        (if truthy (dryRun options)
                         then [Log Info ''DRY RUN MODE - No files will actually be uploaded'']
                         else []) @ wevs
           in if files = [] then (Inr (), before @ [Log Info ''No valid files found to upload''])
              else
                (case fst loop of
                   Inr _ \<Rightarrow>
                     (Inr (), before @
                        [Log Info (''Found '' @ decimal (length files) @ '' files to upload'')] @
                        snd loop @
                        [Log Info (''Upload completed successfully. Processed '' @
                                   decimal (length files) @ '' files.'')])
                 | Inl e \<Rightarrow>
                     (Inl e, before @
                        [Log Info (''Found '' @ decimal (length files) @ '' files to upload'')] @
                        snd loop @ [Log Error ''Error during upload process''])))"
proof -
  obtain r evs where l: "forEachAwait (\<lambda>file. uploadFile options w (fullPath file)
                                          (relativePath file)) files = (r, evs)"
    by (cases "forEachAwait (\<lambda>file. uploadFile options w (fullPath file)
                                          (relativePath file)) files")
  show ?thesis
    using assms l
    by (cases r) (simp_all add: uploadAll_def logger_def Let_def)
qed

lemma uploadKey_dryRun [simp]: "uploadKey (options\<lparr>dryRun := d\<rparr>) p = uploadKey options p"
  by (simp add: uploadKey_def)


lemma uploadFile_real_ok:
  assumes "\<not> truthy (dryRun options)" "fst (uploadFile options w p r) = Inr ()"
  shows "\<exists>content. os_readFile w p = Inr content \<and>
           s3_putObject w (bucket options) (uploadKey options p) content (getMimeType p) = None \<and>
           snd (uploadFile options w p r) =
             [ReadFile p,
              PutObject (bucket options) (uploadKey options p) content (getMimeType p),
              Log Info (''Uploaded: '' @ p @ '' -> s3://'' @ bucket options @ ''/'' @
                        uploadKey options p)]"
proof (cases "os_readFile w p")
  case (Inl e)
  with assms show ?thesis by (simp add: uploadFile_unreadable)
next
  case (Inr content)
  with assms show ?thesis by (auto simp: uploadFile_real split: option.splits)
qed

lemma putKeys_append [simp]: "putKeys (xs @ ys) = putKeys xs @ putKeys ys"
  by (induction xs rule: putKeys.induct) auto

lemma real_loop_keys:
  assumes "\<not> truthy (dryRun options)"
  shows "fst (forEachAwait (\<lambda>file. uploadFile options w (fullPath file) (relativePath file)) files) = Inr ()
    \<Longrightarrow> putKeys (snd (forEachAwait (\<lambda>file. uploadFile options w (fullPath file) (relativePath file)) files)) =
         map (\<lambda>file. uploadKey options (fullPath file)) files"
proof (induction files)
  case Nil
  then show ?case by simp
next
  case (Cons f files)
  let ?u = "\<lambda>file. uploadFile options w (fullPath file) (relativePath file)"
  from Cons.prems have all: "\<forall>x\<in>set (f # files). fst (?u x) = Inr ()"
    by (simp only: forEachAwait_ok_iff)
  then have "\<forall>x\<in>set files. fst (?u x) = Inr ()" by simp
  then have "fst (forEachAwait ?u files) = Inr ()" by (simp only: forEachAwait_ok_iff)
  with all have ok: "fst (?u f) = Inr ()" "fst (forEachAwait ?u files) = Inr ()"
    by simp_all
  from uploadFile_real_ok [OF assms ok(1)] obtain content where
    "snd (?u f) = [ReadFile (fullPath f),
              PutObject (bucket options) (uploadKey options (fullPath f)) content (getMimeType (fullPath f)),
              Log Info (''Uploaded: '' @ fullPath f @ '' -> s3://'' @ bucket options @ ''/'' @
                        uploadKey options (fullPath f))]" by blast
  moreover from ok(1) have "?u f = (Inr (), snd (?u f))" by (metis prod.collapse)
  ultimately have "?u f = (Inr (), [ReadFile (fullPath f),
              PutObject (bucket options) (uploadKey options (fullPath f)) content (getMimeType (fullPath f)),
              Log Info (''Uploaded: '' @ fullPath f @ '' -> s3://'' @ bucket options @ ''/'' @
                        uploadKey options (fullPath f))])" by simp
  then show ?case using Cons.IH [OF ok(2)] by simp
qed

lemma putKeys_logs [simp]: "putKeys (map (\<lambda>x. Log l (g x)) xs) = []"
  by (induction xs) auto












subsection \<open>Files with the same base name\<close>

lemma uploadFile_ignores_relativePath:
  "uploadFile options w localFilePath r1 = uploadFile options w localFilePath r2"
  by (simp add: uploadFile_def)

lemma uploadKey_eq_iff:
  "uploadKey options p = uploadKey options q \<longleftrightarrow> basename p = basename q"
proof
  assume "basename p = basename q"
  then show "uploadKey options p = uploadKey options q" by (simp add: uploadKey_def)
next
  assume a: "uploadKey options p = uploadKey options q"
  let ?s = "\<lambda>f. if toLowerCase (extname f) = ''.pdf'' then ''documents'' else ''images''"
  from a have "?s (basename p) @ ''/'' @ basename p = ?s (basename q) @ ''/'' @ basename q"
    by (simp add: uploadKey_def getS3Key_eq)
  then show "basename p = basename q"
    by (auto split: if_splits)
qed

lemma store_skip:
  "k \<notin> set (putKeys evs) \<Longrightarrow> foldl (applyPut w) st evs (b, k) = st (b, k)"
proof (induction evs arbitrary: st rule: putKeys.induct)
  case 1
  then show ?case by simp
next
  case (2 b' k' c t evs)
  then show ?case by (simp add: applyPut_def)
qed (simp_all add: applyPut_def)

lemma store_last_put:
  assumes "s3_putObject w b k c t = None" "k \<notin> set (putKeys after)"
  shows "storedObjects w (before @ PutObject b k c t # after) (b, k) = Some (c, t)"
  using assms by (simp add: storedObjects_def store_skip applyPut_def)

lemma real_loop_events:
  assumes "\<not> truthy (dryRun options)"
    and "fst (forEachAwait (\<lambda>file. uploadFile options w (fullPath file) (relativePath file)) files) = Inr ()"
  shows "snd (forEachAwait (\<lambda>file. uploadFile options w (fullPath file) (relativePath file)) files) =
           concat (map (\<lambda>file. snd (uploadFile options w (fullPath file) (relativePath file))) files)"
    and "\<forall>file\<in>set files. fst (uploadFile options w (fullPath file) (relativePath file)) = Inr ()"
proof -
  let ?u = "\<lambda>file. uploadFile options w (fullPath file) (relativePath file)"
  from assms(2) show all: "\<forall>file\<in>set files. fst (?u file) = Inr ()"
    by (simp only: forEachAwait_ok_iff)
  then show "snd (forEachAwait ?u files) = concat (map (\<lambda>file. snd (?u file)) files)"
    by (simp add: forEachAwait_all_ok)
qed

lemma later_upload_overwrites:
  assumes real: "\<not> truthy (dryRun options)"
    and walk: "walkDirectory depth w (localPath options) (localPath options) validExtensions =
                 Some (Inr (pre @ f1 # mid @ f2 # post), wevs)"
    and same: "basename (fullPath f1) = basename (fullPath f2)"
    and last: "\<forall>g\<in>set post. basename (fullPath g) \<noteq> basename (fullPath f2)"
    and run: "uploadAll depth options w = Some (Inr (), evs)"
    and read: "os_readFile w (fullPath f2) = Inr content2"
  shows "storedObjects w evs (bucket options, uploadKey options (fullPath f1)) =
           Some (content2, getMimeType (fullPath f2))"
proof -
  let ?files = "pre @ f1 # mid @ f2 # post"
  let ?u = "\<lambda>file. uploadFile options w (fullPath file) (relativePath file)"
  let ?k = "uploadKey options (fullPath f2)"
  let ?done = "Log Info (''Upload completed successfully. Processed '' @
                    decimal (length ?files) @ '' files.'')"
  have ok: "fst (forEachAwait ?u ?files) = Inr ()"
    using run by (simp add: uploadAll_unfold [OF walk] Let_def split: sum.splits)
  have evs: "evs = ([Log Info (''Starting upload from '' @ localPath options @ '' to s3://'' @
                    bucket options)] @ wevs @
         [Log Info (''Found '' @ decimal (length ?files) @ '' files to upload'')]) @
         snd (forEachAwait ?u ?files) @ [?done]"
    using run real ok by (simp add: uploadAll_unfold [OF walk] Let_def)
  note loop = real_loop_events [OF real ok]
  have ok2: "fst (?u f2) = Inr ()" using loop(2) by simp
  obtain content where c: "os_readFile w (fullPath f2) = Inr content"
      "s3_putObject w (bucket options) ?k content (getMimeType (fullPath f2)) = None"
      "snd (?u f2) = [ReadFile (fullPath f2),
              PutObject (bucket options) ?k content (getMimeType (fullPath f2)),
              Log Info (''Uploaded: '' @ fullPath f2 @ '' -> s3://'' @ bucket options @ ''/'' @ ?k)]"
    using uploadFile_real_ok [OF real ok2] by blast
  from c(1) read have content: "content = content2" by simp
  have okpost: "fst (forEachAwait ?u post) = Inr ()"
    using loop(2) by (simp only: forEachAwait_ok_iff) simp
  have postkeys: "putKeys (concat (map (\<lambda>file. snd (?u file)) post)) =
                    map (\<lambda>file. uploadKey options (fullPath file)) post"
    using real_loop_keys [OF real okpost] real_loop_events(1) [OF real okpost] by simp
  let ?before = "([Log Info (''Starting upload from '' @ localPath options @ '' to s3://'' @
                    bucket options)] @ wevs @
         [Log Info (''Found '' @ decimal (length ?files) @ '' files to upload'')]) @
         concat (map (\<lambda>file. snd (?u file)) (pre @ f1 # mid)) @ [ReadFile (fullPath f2)]"
  let ?after = "[Log Info (''Uploaded: '' @ fullPath f2 @ '' -> s3://'' @ bucket options @ ''/'' @ ?k)] @
         concat (map (\<lambda>file. snd (?u file)) post) @ [?done]"
  have shape: "evs = ?before @
      PutObject (bucket options) ?k content2 (getMimeType (fullPath f2)) # ?after"
    using evs loop(1) c(3) content by simp
  have "?k \<notin> set (putKeys ?after)"
    using postkeys last by (auto simp: uploadKey_eq_iff)
  then have "storedObjects w evs (bucket options, ?k) = Some (content2, getMimeType (fullPath f2))"
    using c(2) content store_last_put [of w "bucket options" ?k content2 "getMimeType (fullPath f2)" ?after ?before]
    unfolding shape by blast
  moreover have "uploadKey options (fullPath f1) = ?k"
    using same by (simp add: uploadKey_eq_iff)
  ultimately show ?thesis by simp
qed


text \<open>
  Claim C9. \<^verbatim>\<open>uploadFile\<close> does not use the relative path it is given: the key depends on
  the base name of the local path and on the category only. Two paths with the same base
  name, such as the same entry name joined to two different directories by the walk, have
  the same key. In a real run that completes, the object stored under that key at the end
  is the content of the file uploaded last: the upload of the later file replaces what the
  earlier file had stored.
\<close>

theorem same_base_name_same_key:
  "uploadFile options w localFilePath relA = uploadFile options w localFilePath relB \<and>
   (basename p = basename q \<longrightarrow> uploadKey options p = uploadKey options q) \<and>
   (plainSegment entry \<longrightarrow>
      uploadKey options (path_join [dirA, entry]) = uploadKey options (path_join [dirB, entry])) \<and>
   (\<not> truthy (dryRun options) \<and>
    walkDirectory depth w (localPath options) (localPath options) validExtensions =
      Some (Inr (pre @ earlier # mid @ later # post), wevs) \<and>
    basename (fullPath earlier) = basename (fullPath later) \<and>
    (\<forall>g\<in>set post. basename (fullPath g) \<noteq> basename (fullPath later)) \<and>
    uploadAll depth options w = Some (Inr (), evs) \<and>
    os_readFile w (fullPath later) = Inr content \<longrightarrow>
      storedObjects w evs (bucket options, uploadKey options (fullPath earlier)) =
        Some (content, getMimeType (fullPath later)))"
  using uploadFile_ignores_relativePath [of options w localFilePath relA relB]
        later_upload_overwrites [of options depth w pre earlier mid later post wevs evs content]
  by (simp add: uploadKey_eq_iff basename_path_join)

lemma twin_walk:
  "walkDirectory 2 twinWorld (localPath (exampleOptions False)) (localPath (exampleOptions False))
     validExtensions =
     Some (Inr ([] @ \<lparr> fullPath = ''/pdfs/in/a/x.pdf'', relativePath = ''a/x.pdf'' \<rparr> # [] @
                \<lparr> fullPath = ''/pdfs/in/b/x.pdf'', relativePath = ''b/x.pdf'' \<rparr> # []),
           [Readdir ''/pdfs/in'', Stat ''/pdfs/in/a'', Readdir ''/pdfs/in/a'',
            Stat ''/pdfs/in/a/x.pdf'', Stat ''/pdfs/in/b'', Readdir ''/pdfs/in/b'',
            Stat ''/pdfs/in/b/x.pdf''])"
  by code_simp

lemma twin_run:
  "uploadAll 2 (exampleOptions False) twinWorld =
     Some (Inr (),
       [Log Info ''Starting upload from /pdfs/in to s3://cmdiy-archive'',
        Readdir ''/pdfs/in'', Stat ''/pdfs/in/a'', Readdir ''/pdfs/in/a'',
        Stat ''/pdfs/in/a/x.pdf'', Stat ''/pdfs/in/b'', Readdir ''/pdfs/in/b'',
        Stat ''/pdfs/in/b/x.pdf'', Log Info ''Found 2 files to upload'',
        ReadFile ''/pdfs/in/a/x.pdf'',
        PutObject ''cmdiy-archive'' ''misc/documents/x.pdf'' ''first'' ''application/pdf'',
        Log Info ''Uploaded: /pdfs/in/a/x.pdf -> s3://cmdiy-archive/misc/documents/x.pdf'',
        ReadFile ''/pdfs/in/b/x.pdf'',
        PutObject ''cmdiy-archive'' ''misc/documents/x.pdf'' ''second'' ''application/pdf'',
        Log Info ''Uploaded: /pdfs/in/b/x.pdf -> s3://cmdiy-archive/misc/documents/x.pdf'',
        Log Info ''Upload completed successfully. Processed 2 files.''])"
  by code_simp

lemma twin_facts:
  "basename ''/pdfs/in/a/x.pdf'' = ''x.pdf''"
  "basename ''/pdfs/in/b/x.pdf'' = ''x.pdf''"
  "os_readFile twinWorld ''/pdfs/in/a/x.pdf'' = Inr ''first''"
  "os_readFile twinWorld ''/pdfs/in/b/x.pdf'' = Inr ''second''"
  "uploadKey (exampleOptions False) ''/pdfs/in/a/x.pdf'' = ''misc/documents/x.pdf''"
  "getMimeType ''/pdfs/in/b/x.pdf'' = ''application/pdf''"
  "bucket (exampleOptions False) = ''cmdiy-archive''"
  "\<not> truthy (dryRun (exampleOptions False))"
  by code_simp+

theorem same_base_name_same_key_witness:
  "basename ''/pdfs/in/a/x.pdf'' = basename ''/pdfs/in/b/x.pdf'' \<and>
   os_readFile twinWorld ''/pdfs/in/a/x.pdf'' = Inr ''first'' \<and>
   os_readFile twinWorld ''/pdfs/in/b/x.pdf'' = Inr ''second'' \<and>
   storedObjects twinWorld
       [Log Info ''Starting upload from /pdfs/in to s3://cmdiy-archive'',
        Readdir ''/pdfs/in'', Stat ''/pdfs/in/a'', Readdir ''/pdfs/in/a'',
        Stat ''/pdfs/in/a/x.pdf'', Stat ''/pdfs/in/b'', Readdir ''/pdfs/in/b'',
        Stat ''/pdfs/in/b/x.pdf'', Log Info ''Found 2 files to upload'',
        ReadFile ''/pdfs/in/a/x.pdf'',
        PutObject ''cmdiy-archive'' ''misc/documents/x.pdf'' ''first'' ''application/pdf'',
        Log Info ''Uploaded: /pdfs/in/a/x.pdf -> s3://cmdiy-archive/misc/documents/x.pdf'',
        ReadFile ''/pdfs/in/b/x.pdf'',
        PutObject ''cmdiy-archive'' ''misc/documents/x.pdf'' ''second'' ''application/pdf'',
        Log Info ''Uploaded: /pdfs/in/b/x.pdf -> s3://cmdiy-archive/misc/documents/x.pdf'',
        Log Info ''Upload completed successfully. Processed 2 files.'']
     (''cmdiy-archive'', ''misc/documents/x.pdf'') = Some (''second'', ''application/pdf'')"
  using same_base_name_same_key [where options = "exampleOptions False" and w = twinWorld
          and depth = 2 and pre = "[]" and mid = "[]" and post = "[]"
          and earlier = "\<lparr> fullPath = ''/pdfs/in/a/x.pdf'', relativePath = ''a/x.pdf'' \<rparr>"
          and later = "\<lparr> fullPath = ''/pdfs/in/b/x.pdf'', relativePath = ''b/x.pdf'' \<rparr>"
          and content = "''second''"
          and wevs = "[Readdir ''/pdfs/in'', Stat ''/pdfs/in/a'', Readdir ''/pdfs/in/a'',
            Stat ''/pdfs/in/a/x.pdf'', Stat ''/pdfs/in/b'', Readdir ''/pdfs/in/b'',
            Stat ''/pdfs/in/b/x.pdf'']"]
        twin_walk twin_run twin_facts
  by simp

subsection \<open>Failure of one item of a batch\<close>



lemma convertOne_failure:
  assumes "pdf_storeAsImage w (path_join [source this, file]) (output_dir this)
             (basename_suffix file ''.pdf'') = Inl e"
  shows "convertOne this w file =
     (Inr (),
      [Log Info (''Converting '' @ file @ '' to '' @ format (defaultOptions this)),
       StoreAsImage (path_join [source this, file]) (output_dir this)
         (basename_suffix file ''.pdf''),
       Log Error (''Error converting '' @ file)])"
  using assms
  by (simp add: convertOne_def convertPdfToImage_def caughtLogged_def Let_def query_def
        logger_def)





lemma downloadBatches_Nil [simp]: "downloadBatches config w [] = (Inr (), [])"
  by (simp add: downloadBatches.simps)













subsection \<open>Listing a bucket page by page\<close>

lemma pageCount_next:
  "0 < P \<Longrightarrow> Suc i < pageCount n P \<longleftrightarrow> i * P + P < n"
proof -
  assume P: "0 < P"
  have "Suc i < pageCount n P \<longleftrightarrow> Suc (Suc i) \<le> (n + P - 1) div P"
    by (auto simp: pageCount_def)
  also have "\<dots> \<longleftrightarrow> Suc (Suc i) * P \<le> n + P - 1"
    using P by (simp add: less_eq_div_iff_mult_less_eq)
  also have "\<dots> \<longleftrightarrow> i * P + P < n" using P by auto
  finally show ?thesis .
qed

lemma pageToken_offset: "(case pageToken n of None \<Rightarrow> 0 | Some t \<Rightarrow> length t) = n"
  by (simp add: pageToken_def)

lemma pushKeys_Some:
  "\<forall>k\<in>set ks. k \<noteq> [] \<Longrightarrow> pushKeys (Some (map (\<lambda>k. S3Object (Some k)) ks)) = ks"
  by (induction ks) (auto simp: pushKeys_def)

lemma pushKeys_page:
  "\<forall>k\<in>set ks. k \<noteq> [] \<Longrightarrow>
   pushKeys (if ks = [] then None else Some (map (\<lambda>k. S3Object (Some k)) ks)) = ks"
  using pushKeys_Some by (cases "ks = []") (simp_all add: pushKeys_def)

lemma listObjectsLoop_pages:
  assumes w: "s3_listObjectsV2 w = bucketListing keys"
    and ne: "\<forall>k\<in>set keys. k \<noteq> []"
    and P: "0 < P" "P = min (config_maxKeys config) 1000"
    and m: "m = filter (\<lambda>k. startsWith k (config_prefix config)) keys"
  shows "i < pageCount (length m) P \<Longrightarrow>
    listObjectsLoop config w (pageToken (i * P)) objs evs =
      Some (Inr (objs @ drop (i * P) m),
            evs @ map (\<lambda>j. ListObjectsV2 (config_bucket config) (config_prefix config)
                               (pageToken (j * P)) (config_maxKeys config))
                    [i..<pageCount (length m) P])"
proof (induction "pageCount (length m) P - i" arbitrary: i objs evs)
  case 0
  then show ?case by simp
next
  case (Suc d)
  let ?N = "pageCount (length m) P"
  let ?req = "\<lambda>j. ListObjectsV2 (config_bucket config) (config_prefix config)
                               (pageToken (j * P)) (config_maxKeys config)"
  let ?page = "take P (drop (i * P) m)"
  have nem: "\<forall>k\<in>set ?page. k \<noteq> []"
    using ne m by (auto dest!: in_set_takeD in_set_dropD)
  define r where "r = \<lparr> Contents = (if ?page = [] then None
                             else Some (map (\<lambda>k. S3Object (Some k)) ?page)),
              NextContinuationToken =
                (if i * P + P < length m then Some (replicate (i * P + P) (CHR ''t''))
                 else None) \<rparr>"
  have resp: "s3_listObjectsV2 w (config_bucket config) (config_prefix config)
                (pageToken (i * P)) (config_maxKeys config) = Inr r"
    by (simp add: r_def w bucketListing_def Let_def pageToken_offset P(2) [symmetric]
          m [symmetric])
  have contents: "Contents r = (if ?page = [] then None
                             else Some (map (\<lambda>k. S3Object (Some k)) ?page))"
    by (simp add: r_def)
  have token: "NextContinuationToken r =
                (if i * P + P < length m then Some (replicate (i * P + P) (CHR ''t''))
                 else None)"
    by (simp add: r_def)
  have push: "pushKeys (Contents r) = ?page"
    unfolding contents by (rule pushKeys_page [OF nem])
  have upt: "[i..<?N] = i # [Suc i..<?N]" using Suc.prems by (simp add: upt_conv_Cons)
  show ?case
  proof (cases "i * P + P < length m")
    case True
    then have nxt: "Suc i < ?N" using P(1) by (simp add: pageCount_next)
    have tok: "Some (replicate (i * P + P) (CHR ''t'')) = pageToken (Suc i * P)"
      using P(1) by (simp add: pageToken_def add.commute)
    have tt: "tokenTruthy (Some (replicate (i * P + P) (CHR ''t'')))"
      using P(1) by (simp add: tokenTruthy_def)
    have d: "d = ?N - Suc i" using Suc.hyps(2) by simp
    have IH: "listObjectsLoop config w (pageToken (Suc i * P)) (objs @ ?page) (evs @ [?req i]) =
      Some (Inr ((objs @ ?page) @ drop (Suc i * P) m), (evs @ [?req i]) @ map ?req [Suc i..<?N])"
      by (rule Suc.hyps(1) [OF d nxt])
    have cat: "?page @ drop (Suc i * P) m = drop (i * P) m"
      by (metis add.commute append_take_drop_id drop_drop mult_Suc)
    show ?thesis
      apply (subst listObjectsLoop.simps)
      using True tt IH cat
      by (simp add: resp push token tok upt del: mult_Suc)
  next
    case False
    then have lastpage: "?N = Suc i" using P(1) Suc.prems pageCount_next [of P i "length m"] by simp
    from False have all: "?page = drop (i * P) m" by simp
    show ?thesis
      apply (subst listObjectsLoop.simps)
      using False all
      by (simp add: resp push token tokenTruthy_def lastpage)
  qed
qed


lemma listObjects_bucket:
  assumes "s3_listObjectsV2 w = bucketListing keys" "\<forall>k\<in>set keys. k \<noteq> []"
    and "0 < config_maxKeys config"
  shows "listObjects config w =
     Some (Inr (filter (\<lambda>k. startsWith k (config_prefix config)) keys),
           pageRequests config (length (filter (\<lambda>k. startsWith k (config_prefix config)) keys)) @
           [Log Info (''Found '' @
                      decimal (length (filter (\<lambda>k. startsWith k (config_prefix config)) keys)) @
                      '' objects in s3://'' @ config_bucket config @ ''/'' @
                      config_prefix config)])"
proof -
  let ?m = "filter (\<lambda>k. startsWith k (config_prefix config)) keys"
  let ?P = "min (config_maxKeys config) 1000"
  have P: "0 < ?P" using assms(3) by simp
  have "0 < pageCount (length ?m) ?P" by (simp add: pageCount_def)
  from listObjectsLoop_pages [OF assms(1,2) P refl refl this, of "[]" "[]"]
  have "listObjectsLoop config w None [] [] =
          Some (Inr ?m, pageRequests config (length ?m))"
    by (simp add: pageToken_def pageRequests_def Let_def)
  then show ?thesis by (simp add: listObjects_def logger_def)
qed

lemma pushKeys_length: "length (pushKeys (Some (map (\<lambda>k. S3Object (Some k)) ks))) \<le> length ks"
  by (induction ks) (auto simp: pushKeys_def)

lemma bucketListing_page_bound:
  "bucketListing keys b p tok maxKeys = Inr r \<Longrightarrow> length (pushKeys (Contents r)) \<le> maxKeys"
proof -
  assume a: "bucketListing keys b p tok maxKeys = Inr r"
  let ?page = "take (min maxKeys 1000)
                 (drop (case tok of None \<Rightarrow> 0 | Some t \<Rightarrow> length t)
                    (filter (\<lambda>k. startsWith k p) keys))"
  from a have c: "Contents r = (if ?page = [] then None
                                else Some (map (\<lambda>k. S3Object (Some k)) ?page))"
    by (auto simp: bucketListing_def Let_def)
  show ?thesis
  proof (cases "?page = []")
    case True
    with c show ?thesis by (simp add: pushKeys_def)
  next
    case False
    with c have "Contents r = Some (map (\<lambda>k. S3Object (Some k)) ?page)"
      by (simp only: if_False)
    then have "length (pushKeys (Contents r)) \<le> length ?page"
      by (metis pushKeys_length)
    also have "\<dots> \<le> maxKeys" by simp
    finally show ?thesis .
  qed
qed

lemma three_pages: "pageCount 2500 (min 1000 1000) = 3"
  by (simp add: pageCount_def)

text \<open>
  Claim C6. Against a bucket that pages its listing, \<^verbatim>\<open>listObjects\<close> returns every key under
  the configured prefix, in the order of the listing: it sends one request for each page,
  the first without a token and each later one with the token of the page before, until a
  page comes without a token. No page holds more than \<^verbatim>\<open>MaxKeys\<close> keys; the number of keys
  returned is not bounded by it. For 2500 keys and \<^verbatim>\<open>MaxKeys\<close> 1000 there are three pages.
\<close>

theorem listObjects_follows_pages:
  "(s3_listObjectsV2 w = bucketListing keys \<and> (\<forall>k\<in>set keys. k \<noteq> []) \<and>
    0 < config_maxKeys config \<longrightarrow>
      listObjects config w =
        Some (Inr (filter (\<lambda>k. startsWith k (config_prefix config)) keys),
              pageRequests config
                (length (filter (\<lambda>k. startsWith k (config_prefix config)) keys)) @
              [Log Info (''Found '' @
                 decimal (length (filter (\<lambda>k. startsWith k (config_prefix config)) keys)) @
                 '' objects in s3://'' @ config_bucket config @ ''/'' @
                 config_prefix config)])) \<and>
   length (pageRequests config n) = pageCount n (min (config_maxKeys config) 1000) \<and>
   (bucketListing keys b p tok maxKeys = Inr r \<longrightarrow> length (pushKeys (Contents r)) \<le> maxKeys) \<and>
   pageCount 2500 (min 1000 1000) = 3"
  using listObjects_bucket [of w keys config] bucketListing_page_bound [of keys b p tok maxKeys r]
    three_pages
  by (simp add: pageRequests_def Let_def)

lemma many_facts:
  "s3_listObjectsV2 manyWorld = bucketListing manyKeys"
  "\<forall>k\<in>set manyKeys. k \<noteq> []"
  "filter (\<lambda>k. startsWith k (config_prefix exampleConfig)) manyKeys = manyKeys"
  "length manyKeys = 2500"
  "0 < config_maxKeys exampleConfig"
  "config_bucket exampleConfig = ''cmdiy-archive''"
  "config_prefix exampleConfig = ''mini/''"
  by (simp_all add: manyWorld_def manyKeys_def exampleConfig_def startsWith_def comp_def)

lemma many_requests:
  "pageRequests exampleConfig 2500 =
     [ListObjectsV2 ''cmdiy-archive'' ''mini/'' None 1000,
      ListObjectsV2 ''cmdiy-archive'' ''mini/'' (pageToken 1000) 1000,
      ListObjectsV2 ''cmdiy-archive'' ''mini/'' (pageToken 2000) 1000]"
  by (simp add: pageRequests_def pageCount_def exampleConfig_def upt_rec pageToken_def)

lemma decimal_2500: "decimal 2500 = ''2500''"
  by code_simp

theorem listObjects_follows_pages_witness:
  "listObjects exampleConfig manyWorld =
     Some (Inr manyKeys,
       [ListObjectsV2 ''cmdiy-archive'' ''mini/'' None 1000,
        ListObjectsV2 ''cmdiy-archive'' ''mini/'' (pageToken 1000) 1000,
        ListObjectsV2 ''cmdiy-archive'' ''mini/'' (pageToken 2000) 1000,
        Log Info ''Found 2500 objects in s3://cmdiy-archive/mini/'']) \<and>
   length manyKeys = 2500 \<and>
   pageToken 1000 = Some (replicate 1000 (CHR ''t''))"
  using listObjects_follows_pages [where w = manyWorld and keys = manyKeys
          and config = exampleConfig]
        many_facts many_requests decimal_2500
  by (simp add: pageToken_def)

end
